theory Spec2Isabelle
  imports Main "HOL-Library.Word"
begin

section \<open>Constants of \<^verbatim>\<open>odp_crypto.c\<close>\<close>

definition MAX_SESSIONS :: nat where
  "MAX_SESSIONS = 2048"

definition MAX_IV_LENGTH :: nat where
  "MAX_IV_LENGTH = 16"

definition AES_CCM_AAD_OFFSET :: nat where
  "AES_CCM_AAD_OFFSET = 18"


section \<open>Algorithm identifiers\<close>

text \<open>
  The ODP and DPDK enumerations are declared in headers outside this file. Each datatype
  lists the identifiers that \<^verbatim>\<open>odp_crypto.c\<close> names; the last constructor stands for every
  other identifier (the \<^verbatim>\<open>default\<close> branch of the switches). The file is modelled with
  \<^verbatim>\<open>ODP_DEPRECATED_API\<close> off.
\<close>

datatype odp_cipher_alg_t =
    ODP_CIPHER_ALG_NULL
  | ODP_CIPHER_ALG_DES
  | ODP_CIPHER_ALG_3DES_CBC
  | ODP_CIPHER_ALG_AES_CBC
  | ODP_CIPHER_ALG_AES_CTR
  | ODP_CIPHER_ALG_AES_GCM
  | ODP_CIPHER_ALG_AES_CCM
  | ODP_CIPHER_ALG_KASUMI_F8
  | ODP_CIPHER_ALG_SNOW3G_UEA2
  | ODP_CIPHER_ALG_ZUC_EEA3
  | ODP_CIPHER_ALG_OTHER

datatype odp_auth_alg_t =
    ODP_AUTH_ALG_NULL
  | ODP_AUTH_ALG_MD5_HMAC
  | ODP_AUTH_ALG_SHA1_HMAC
  | ODP_AUTH_ALG_SHA256_HMAC
  | ODP_AUTH_ALG_SHA512_HMAC
  | ODP_AUTH_ALG_AES_GCM
  | ODP_AUTH_ALG_AES_GMAC
  | ODP_AUTH_ALG_AES_CCM
  | ODP_AUTH_ALG_AES_CMAC
  | ODP_AUTH_ALG_KASUMI_F9
  | ODP_AUTH_ALG_SNOW3G_UIA2
  | ODP_AUTH_ALG_ZUC_EIA3
  | ODP_AUTH_ALG_OTHER

datatype rte_crypto_cipher_algorithm =
    RTE_CRYPTO_CIPHER_NULL
  | RTE_CRYPTO_CIPHER_3DES_CBC
  | RTE_CRYPTO_CIPHER_AES_CBC
  | RTE_CRYPTO_CIPHER_AES_CTR
  | RTE_CRYPTO_CIPHER_KASUMI_F8
  | RTE_CRYPTO_CIPHER_SNOW3G_UEA2
  | RTE_CRYPTO_CIPHER_ZUC_EEA3
  | RTE_CRYPTO_CIPHER_OTHER

datatype rte_crypto_auth_algorithm =
    RTE_CRYPTO_AUTH_NULL
  | RTE_CRYPTO_AUTH_MD5_HMAC
  | RTE_CRYPTO_AUTH_SHA256_HMAC
  | RTE_CRYPTO_AUTH_SHA1_HMAC
  | RTE_CRYPTO_AUTH_SHA512_HMAC
  | RTE_CRYPTO_AUTH_AES_GMAC
  | RTE_CRYPTO_AUTH_AES_CMAC
  | RTE_CRYPTO_AUTH_KASUMI_F9
  | RTE_CRYPTO_AUTH_SNOW3G_UIA2
  | RTE_CRYPTO_AUTH_ZUC_EIA3
  | RTE_CRYPTO_AUTH_OTHER

datatype rte_crypto_aead_algorithm =
    RTE_CRYPTO_AEAD_AES_GCM
  | RTE_CRYPTO_AEAD_AES_CCM
  | RTE_CRYPTO_AEAD_OTHER

datatype rte_crypto_cipher_operation =
    RTE_CRYPTO_CIPHER_OP_ENCRYPT
  | RTE_CRYPTO_CIPHER_OP_DECRYPT

datatype rte_crypto_auth_operation =
    RTE_CRYPTO_AUTH_OP_VERIFY
  | RTE_CRYPTO_AUTH_OP_GENERATE

datatype rte_crypto_aead_operation =
    RTE_CRYPTO_AEAD_OP_ENCRYPT
  | RTE_CRYPTO_AEAD_OP_DECRYPT

datatype odp_crypto_op_t =
    ODP_CRYPTO_OP_ENCODE
  | ODP_CRYPTO_OP_DECODE

datatype odp_crypto_ses_create_err_t =
    ODP_CRYPTO_SES_CREATE_ERR_NONE
  | ODP_CRYPTO_SES_CREATE_ERR_ENOMEM
  | ODP_CRYPTO_SES_CREATE_ERR_INV_CIPHER
  | ODP_CRYPTO_SES_CREATE_ERR_INV_AUTH

datatype odp_crypto_alg_err_t =
    ODP_CRYPTO_ALG_ERR_NONE
  | ODP_CRYPTO_ALG_ERR_DATA_SIZE
  | ODP_CRYPTO_ALG_ERR_KEY_SIZE
  | ODP_CRYPTO_ALG_ERR_ICV_CHECK
  | ODP_CRYPTO_ALG_ERR_IV_INVALID

datatype rte_crypto_op_status =
    RTE_CRYPTO_OP_STATUS_SUCCESS
  | RTE_CRYPTO_OP_STATUS_NOT_PROCESSED
  | RTE_CRYPTO_OP_STATUS_AUTH_FAILED
  | RTE_CRYPTO_OP_STATUS_INVALID_SESSION
  | RTE_CRYPTO_OP_STATUS_INVALID_ARGS
  | RTE_CRYPTO_OP_STATUS_ERROR

section \<open>Size ranges: \<^verbatim>\<open>is_valid_size\<close>\<close>

text \<open>
  \<^verbatim>\<open>struct rte_crypto_param_range\<close>: three \<^verbatim>\<open>uint16_t\<close> fields (the fields \<^verbatim>\<open>min\<close> and
  \<^verbatim>\<open>max\<close> carry a suffix, the plain names being HOL constants).
\<close>

record rte_crypto_param_range =
  min_r :: "16 word"
  max_r :: "16 word"
  increment :: "16 word"

text \<open>
  The \<^verbatim>\<open>for\<close> loop of \<^verbatim>\<open>is_valid_size\<close>. The counter \<^verbatim>\<open>supp_size\<close> is a \<^verbatim>\<open>uint16_t\<close>, so
  \<^verbatim>\<open>supp_size += range->increment\<close> wraps modulo \<open>2^16\<close>. Nothing bounds the number of
  iterations, so the loop is a partial function: \<open>None\<close> means that it never returns.
\<close>

partial_function (option) is_valid_size_loop ::
  "16 word \<Rightarrow> rte_crypto_param_range \<Rightarrow> 16 word \<Rightarrow> int option" where
  "is_valid_size_loop len rg supp_size =
     (if supp_size \<le> max_r rg then
        (if len = supp_size then Some 0
         else is_valid_size_loop len rg (supp_size + increment rg))
      else Some (- 1))"

definition is_valid_size :: "16 word \<Rightarrow> rte_crypto_param_range \<Rightarrow> int option" where
  "is_valid_size len rg =
     (if len < min_r rg then Some (- 1)
      else if min_r rg \<noteq> len \<and> increment rg = 0 then Some (- 1)
      else is_valid_size_loop len rg (min_r rg))"

text \<open>
  The rule of the data model for a supported size, in the words of the specification:
  \<open>s \<ge> min\<close>, and \<open>s = min\<close> or \<open>increment > 0\<close> and \<open>(s - min) % increment = 0\<close>, and
  \<open>s \<le> max\<close>.
\<close>

definition size_supported :: "16 word \<Rightarrow> rte_crypto_param_range \<Rightarrow> bool" where
  "size_supported s rg \<longleftrightarrow>
     min_r rg \<le> s \<and>
     (s = min_r rg \<or>
      (0 < increment rg \<and> (unat s - unat (min_r rg)) mod unat (increment rg) = 0)) \<and>
     s \<le> max_r rg"

text \<open>A range whose scan cannot step past \<open>65535\<close>: the counter never wraps.\<close>

definition range_no_wrap :: "rte_crypto_param_range \<Rightarrow> bool" where
  "range_no_wrap rg \<longleftrightarrow> unat (max_r rg) + unat (increment rg) < 65536"

section \<open>Algorithm mapper\<close>

fun cipher_is_aead :: "odp_cipher_alg_t \<Rightarrow> bool" where
  "cipher_is_aead ODP_CIPHER_ALG_AES_GCM = True"
| "cipher_is_aead ODP_CIPHER_ALG_AES_CCM = True"
| "cipher_is_aead _ = False"

fun cipher_aead_alg_odp_to_rte :: "odp_cipher_alg_t \<Rightarrow> rte_crypto_aead_algorithm option" where
  "cipher_aead_alg_odp_to_rte ODP_CIPHER_ALG_AES_GCM = Some RTE_CRYPTO_AEAD_AES_GCM"
| "cipher_aead_alg_odp_to_rte ODP_CIPHER_ALG_AES_CCM = Some RTE_CRYPTO_AEAD_AES_CCM"
| "cipher_aead_alg_odp_to_rte _ = None"

fun cipher_alg_odp_to_rte :: "odp_cipher_alg_t \<Rightarrow> rte_crypto_cipher_algorithm option" where
  "cipher_alg_odp_to_rte ODP_CIPHER_ALG_NULL = Some RTE_CRYPTO_CIPHER_NULL"
| "cipher_alg_odp_to_rte ODP_CIPHER_ALG_DES = Some RTE_CRYPTO_CIPHER_3DES_CBC"
| "cipher_alg_odp_to_rte ODP_CIPHER_ALG_3DES_CBC = Some RTE_CRYPTO_CIPHER_3DES_CBC"
| "cipher_alg_odp_to_rte ODP_CIPHER_ALG_AES_CBC = Some RTE_CRYPTO_CIPHER_AES_CBC"
| "cipher_alg_odp_to_rte ODP_CIPHER_ALG_AES_CTR = Some RTE_CRYPTO_CIPHER_AES_CTR"
| "cipher_alg_odp_to_rte ODP_CIPHER_ALG_KASUMI_F8 = Some RTE_CRYPTO_CIPHER_KASUMI_F8"
| "cipher_alg_odp_to_rte ODP_CIPHER_ALG_SNOW3G_UEA2 = Some RTE_CRYPTO_CIPHER_SNOW3G_UEA2"
| "cipher_alg_odp_to_rte ODP_CIPHER_ALG_ZUC_EEA3 = Some RTE_CRYPTO_CIPHER_ZUC_EEA3"
| "cipher_alg_odp_to_rte _ = None"

fun auth_alg_odp_to_rte :: "odp_auth_alg_t \<Rightarrow> rte_crypto_auth_algorithm option" where
  "auth_alg_odp_to_rte ODP_AUTH_ALG_NULL = Some RTE_CRYPTO_AUTH_NULL"
| "auth_alg_odp_to_rte ODP_AUTH_ALG_MD5_HMAC = Some RTE_CRYPTO_AUTH_MD5_HMAC"
| "auth_alg_odp_to_rte ODP_AUTH_ALG_SHA256_HMAC = Some RTE_CRYPTO_AUTH_SHA256_HMAC"
| "auth_alg_odp_to_rte ODP_AUTH_ALG_SHA1_HMAC = Some RTE_CRYPTO_AUTH_SHA1_HMAC"
| "auth_alg_odp_to_rte ODP_AUTH_ALG_SHA512_HMAC = Some RTE_CRYPTO_AUTH_SHA512_HMAC"
| "auth_alg_odp_to_rte ODP_AUTH_ALG_AES_GMAC = Some RTE_CRYPTO_AUTH_AES_GMAC"
| "auth_alg_odp_to_rte ODP_AUTH_ALG_AES_CMAC = Some RTE_CRYPTO_AUTH_AES_CMAC"
| "auth_alg_odp_to_rte ODP_AUTH_ALG_KASUMI_F9 = Some RTE_CRYPTO_AUTH_KASUMI_F9"
| "auth_alg_odp_to_rte ODP_AUTH_ALG_SNOW3G_UIA2 = Some RTE_CRYPTO_AUTH_SNOW3G_UIA2"
| "auth_alg_odp_to_rte ODP_AUTH_ALG_ZUC_EIA3 = Some RTE_CRYPTO_AUTH_ZUC_EIA3"
| "auth_alg_odp_to_rte _ = None"

section \<open>Device capabilities\<close>

datatype rte_crypto_op_type =
    RTE_CRYPTO_OP_TYPE_UNDEFINED
  | RTE_CRYPTO_OP_TYPE_SYMMETRIC

text \<open>
  \<^verbatim>\<open>struct rte_cryptodev_symmetric_capability\<close>: the tag \<^verbatim>\<open>xform_type\<close> and the union of
  the three capability records. The arguments are the algorithm and the ranges
  \<^verbatim>\<open>key_size\<close>, \<^verbatim>\<open>digest_size\<close>, \<^verbatim>\<open>aad_size\<close>, \<^verbatim>\<open>iv_size\<close> the member has.
\<close>

datatype rte_cryptodev_symmetric_capability =
    Cap_not_specified
  | Cap_auth rte_crypto_auth_algorithm
      rte_crypto_param_range rte_crypto_param_range rte_crypto_param_range
  | Cap_cipher rte_crypto_cipher_algorithm
      rte_crypto_param_range rte_crypto_param_range
  | Cap_aead rte_crypto_aead_algorithm
      rte_crypto_param_range rte_crypto_param_range rte_crypto_param_range
      rte_crypto_param_range

record rte_cryptodev_capabilities =
  cap_op :: rte_crypto_op_type
  sym :: rte_cryptodev_symmetric_capability

record rte_cryptodev_info =
  capabilities :: "rte_cryptodev_capabilities list"
  max_nb_queue_pairs :: "32 word"

text \<open>
  What the accelerator driver and the packet library report to this file: the number of
  devices, the information of each, its socket, the number of CPUs, and the constants
  \<^verbatim>\<open>PACKET_DIGEST_MAX\<close>, \<^verbatim>\<open>PACKET_AAD_MAX\<close>, \<^verbatim>\<open>ODP_POOL_INVALID\<close> and
  \<^verbatim>\<open>ODP_PACKET_INVALID\<close> of headers outside this file.
\<close>

record platform =
  rte_cryptodev_count :: "8 word"
  rte_cryptodev_info_get :: "8 word \<Rightarrow> rte_cryptodev_info"
  rte_cryptodev_socket_id :: "8 word \<Rightarrow> 8 word"
  odp_cpu_count :: "32 word"
  PACKET_DIGEST_MAX :: nat
  PACKET_AAD_MAX :: nat
  ODP_POOL_INVALID :: nat
  ODP_PACKET_INVALID :: nat

section \<open>Transforms and sessions\<close>

record cipher_xform_t =
  cipher_algo :: rte_crypto_cipher_algorithm
  cipher_key_data :: "8 word list"
  cipher_key_length :: "16 word"
  cipher_iv_length :: "16 word"
  cipher_op :: rte_crypto_cipher_operation

record auth_xform_t =
  auth_algo :: rte_crypto_auth_algorithm
  auth_digest_length :: "16 word"
  auth_key_data :: "8 word list"
  auth_key_length :: "16 word"
  auth_iv_length :: "16 word"
  auth_op :: rte_crypto_auth_operation

record aead_xform_t =
  aead_algo :: rte_crypto_aead_algorithm
  aead_key_data :: "8 word list"
  aead_key_length :: "16 word"
  aead_iv_length :: "16 word"
  aead_aad_length :: "16 word"
  aead_digest_length :: "16 word"
  aead_op :: rte_crypto_aead_operation

text \<open>
  \<^verbatim>\<open>struct rte_crypto_sym_xform\<close>: the tag \<^verbatim>\<open>type\<close> and the union. \<open>XFORM_ZERO\<close> is the
  all-zero structure that \<^verbatim>\<open>memset\<close> leaves, \<open>XFORM_UNINIT\<close> a local variable that was
  never written. The \<^verbatim>\<open>next\<close> pointer is modelled by the chain handed to the driver.
\<close>

datatype rte_crypto_sym_xform =
    XFORM_ZERO
  | XFORM_UNINIT
  | XFORM_AUTH auth_xform_t
  | XFORM_CIPHER cipher_xform_t
  | XFORM_AEAD aead_xform_t

record odp_crypto_key_t =
  key_data :: "8 word list"
  key_length :: "32 word"

record odp_crypto_iv_t =
  iv_data :: "8 word list option"
  iv_length :: "32 word"

record odp_crypto_session_param_t =
  op :: odp_crypto_op_t
  auth_cipher_text :: bool
  cipher_alg :: odp_cipher_alg_t
  cipher_key :: odp_crypto_key_t
  cipher_iv :: odp_crypto_iv_t
  auth_alg :: odp_auth_alg_t
  auth_key :: odp_crypto_key_t
  auth_iv :: odp_crypto_iv_t
  auth_digest_len :: "32 word"
  auth_aad_len :: "32 word"
  output_pool :: nat

text \<open>
  A session handle is the address of a slot of \<^verbatim>\<open>global->sessions\<close> cast to an integer.
  Slots are addressed by their index; \<open>SESSION_NULL\<close> is the handle 0.
\<close>

datatype odp_crypto_session_t =
    ODP_CRYPTO_SESSION_INVALID
  | SESSION_NULL
  | SESSION nat

record crypto_session_entry_t =
  next_entry :: "nat option"
  p :: odp_crypto_session_param_t
  rte_session :: "nat option"
  cipher_xform :: rte_crypto_sym_xform
  auth_xform :: rte_crypto_sym_xform
  cdev_nb_qpairs :: "16 word"
  cdev_id :: "8 word"
  cipher_iv_data :: "8 word list"
  auth_iv_data :: "8 word list"

text \<open>
  \<^verbatim>\<open>crypto_global_t\<close>. The three arrays are functions of the index; every index the code
  uses is below the array's size (device counts come from \<^verbatim>\<open>rte_cryptodev_count\<close>, slots
  from the free list). The pools are modelled by whether the pointer is set.
\<close>

record crypto_global_t =
  enabled_crypto_devs :: "8 word"
  enabled_crypto_dev_ids :: "nat \<Rightarrow> 8 word"
  enabled_crypto_dev_nb_qpairs :: "nat \<Rightarrow> 16 word"
  free :: "nat option"
  sessions :: "nat \<Rightarrow> crypto_session_entry_t"
  is_crypto_dev_initialized :: int
  crypto_op_pool :: bool
  session_mempool :: "nat \<Rightarrow> bool"

text \<open>The values \<^verbatim>\<open>memset(..., 0, ...)\<close> leaves.\<close>

definition zero_key :: odp_crypto_key_t where
  "zero_key = \<lparr>key_data = [], key_length = 0\<rparr>"

definition zero_iv :: odp_crypto_iv_t where
  "zero_iv = \<lparr>iv_data = None, iv_length = 0\<rparr>"

definition zero_param :: odp_crypto_session_param_t where
  "zero_param =
     \<lparr>op = ODP_CRYPTO_OP_ENCODE, auth_cipher_text = False,
      cipher_alg = ODP_CIPHER_ALG_NULL, cipher_key = zero_key, cipher_iv = zero_iv,
      auth_alg = ODP_AUTH_ALG_NULL, auth_key = zero_key, auth_iv = zero_iv,
      auth_digest_len = 0, auth_aad_len = 0, output_pool = 0\<rparr>"

definition zero_session :: crypto_session_entry_t where
  "zero_session =
     \<lparr>next_entry = None, p = zero_param, rte_session = None,
      cipher_xform = XFORM_ZERO, auth_xform = XFORM_ZERO,
      cdev_nb_qpairs = 0, cdev_id = 0,
      cipher_iv_data = replicate MAX_IV_LENGTH 0,
      auth_iv_data = replicate MAX_IV_LENGTH 0\<rparr>"

definition zero_global :: crypto_global_t where
  "zero_global =
     \<lparr>enabled_crypto_devs = 0, enabled_crypto_dev_ids = (\<lambda>_. 0),
      enabled_crypto_dev_nb_qpairs = (\<lambda>_. 0), free = None,
      sessions = (\<lambda>_. zero_session), is_crypto_dev_initialized = 0,
      crypto_op_pool = False, session_mempool = (\<lambda>_. False)\<rparr>"

section \<open>Session pool\<close>

definition alloc_session :: "crypto_global_t \<Rightarrow> crypto_global_t \<times> nat option" where
  "alloc_session g =
     (case free g of
        None \<Rightarrow> (g, None)
      | Some session \<Rightarrow>
          (g\<lparr>free := next_entry (sessions g session),
             sessions := (sessions g)(session := (sessions g session)\<lparr>next_entry := None\<rparr>)\<rparr>,
           Some session))"

definition free_session :: "crypto_global_t \<Rightarrow> nat \<Rightarrow> crypto_global_t" where
  "free_session g session =
     g\<lparr>sessions := (sessions g)(session := (sessions g session)\<lparr>next_entry := free g\<rparr>),
       free := Some session\<rparr>"

text \<open>\<^verbatim>\<open>memset(session, 0, sizeof(*session))\<close> on a slot.\<close>

definition memset_session :: "crypto_global_t \<Rightarrow> nat \<Rightarrow> crypto_global_t" where
  "memset_session g session = g\<lparr>sessions := (sessions g)(session := zero_session)\<rparr>"

text \<open>
  The counting loop of \<^verbatim>\<open>odp_crypto_term_global\<close>: it follows the \<^verbatim>\<open>next\<close> pointers from
  \<^verbatim>\<open>global->free\<close> to \<^verbatim>\<open>NULL\<close>. On a cyclic list it never returns (\<open>None\<close>).
\<close>

partial_function (option) count_free ::
  "(nat \<Rightarrow> crypto_session_entry_t) \<Rightarrow> nat option \<Rightarrow> int \<Rightarrow> int option" where
  "count_free ses session count =
     (case session of
        None \<Rightarrow> Some count
      | Some s \<Rightarrow> count_free ses (next_entry (ses s)) (count + 1))"

definition free_list_length :: "crypto_global_t \<Rightarrow> int option" where
  "free_list_length g = count_free (sessions g) (free g) 0"

text \<open>The slots reached from a pointer along \<^verbatim>\<open>next\<close>, in order, ending at \<^verbatim>\<open>NULL\<close>.\<close>

primrec free_chain ::
  "(nat \<Rightarrow> crypto_session_entry_t) \<Rightarrow> nat option \<Rightarrow> nat list \<Rightarrow> bool" where
  "free_chain ses ptr [] \<longleftrightarrow> ptr = None"
| "free_chain ses ptr (s # rest) \<longleftrightarrow> ptr = Some s \<and> free_chain ses (next_entry (ses s)) rest"

text \<open>
  The pool is conserved for a set of sessions in use when the free list is a chain of
  distinct slots that, together with the sessions in use and without overlap, make up the
  \<^verbatim>\<open>MAX_SESSIONS\<close> slots of the array.
\<close>

definition pool_conserved :: "crypto_global_t \<Rightarrow> nat set \<Rightarrow> bool" where
  "pool_conserved g in_use \<longleftrightarrow>
     (\<exists>xs. free_chain (sessions g) (free g) xs \<and> distinct xs \<and>
           set xs \<inter> in_use = {} \<and> set xs \<union> in_use = {..<MAX_SESSIONS})"

text \<open>
  A slot taken from the head of the free list of \<open>g\<close>, zeroed and pushed back: all-zero
  but for the link, which is what it was.
\<close>

definition rolled_back :: "crypto_global_t \<Rightarrow> nat \<Rightarrow> crypto_global_t" where
  "rolled_back g s =
     g\<lparr>sessions := (sessions g)(s := zero_session\<lparr>next_entry := next_entry (sessions g s)\<rparr>)\<rparr>"

section \<open>Device selector\<close>

text \<open>
  The scans of a capability array. The array ends at the first entry whose \<^verbatim>\<open>op\<close> is
  \<^verbatim>\<open>RTE_CRYPTO_OP_TYPE_UNDEFINED\<close>; the end of the list stands for that entry too. The
  result is the ranges of the first entry of the wanted kind and algorithm, \<open>None\<close>
  when the scan stops at the end marker.
\<close>

fun find_cipher_cap ::
  "rte_cryptodev_capabilities list \<Rightarrow> rte_crypto_cipher_algorithm \<Rightarrow>
   (rte_crypto_param_range \<times> rte_crypto_param_range) option" where
  "find_cipher_cap [] a = None"
| "find_cipher_cap (cap # caps) a =
     (if cap_op cap = RTE_CRYPTO_OP_TYPE_UNDEFINED then None
      else (case sym cap of
              Cap_cipher algo key_size iv_size \<Rightarrow>
                if algo = a then Some (key_size, iv_size) else find_cipher_cap caps a
            | _ \<Rightarrow> find_cipher_cap caps a))"

fun find_auth_cap ::
  "rte_cryptodev_capabilities list \<Rightarrow> rte_crypto_auth_algorithm \<Rightarrow>
   (rte_crypto_param_range \<times> rte_crypto_param_range \<times> rte_crypto_param_range) option" where
  "find_auth_cap [] a = None"
| "find_auth_cap (cap # caps) a =
     (if cap_op cap = RTE_CRYPTO_OP_TYPE_UNDEFINED then None
      else (case sym cap of
              Cap_auth algo key_size digest_size iv_size \<Rightarrow>
                if algo = a then Some (key_size, digest_size, iv_size)
                else find_auth_cap caps a
            | _ \<Rightarrow> find_auth_cap caps a))"

fun find_aead_cap ::
  "rte_cryptodev_capabilities list \<Rightarrow> rte_crypto_aead_algorithm \<Rightarrow>
   (rte_crypto_param_range \<times> rte_crypto_param_range \<times> rte_crypto_param_range) option" where
  "find_aead_cap [] a = None"
| "find_aead_cap (cap # caps) a =
     (if cap_op cap = RTE_CRYPTO_OP_TYPE_UNDEFINED then None
      else (case sym cap of
              Cap_aead algo key_size digest_size aad_size iv_size \<Rightarrow>
                if algo = a then Some (key_size, digest_size, iv_size)
                else find_aead_cap caps a
            | _ \<Rightarrow> find_aead_cap caps a))"

text \<open>
  The body of the device loops for one device. The outer \<open>option\<close> is \<open>None\<close> when a
  size check never returns; \<open>Some False\<close> is \<^verbatim>\<open>continue\<close>, \<open>Some True\<close> reaches the
  assignment of \<^verbatim>\<open>*dev_id\<close>. The \<^verbatim>\<open>||\<close> of the IV checks does not call \<^verbatim>\<open>is_valid_size\<close>
  when the length exceeds \<^verbatim>\<open>MAX_IV_LENGTH\<close>.
\<close>

definition aead_dev_check ::
  "rte_cryptodev_capabilities list \<Rightarrow> aead_xform_t \<Rightarrow> bool option" where
  "aead_dev_check caps aead_xform =
     (case find_aead_cap caps (aead_algo aead_xform) of
        None \<Rightarrow> Some False
      | Some (key_size, digest_size, iv_size) \<Rightarrow>
          (case is_valid_size (aead_key_length aead_xform) key_size of
             None \<Rightarrow> None
           | Some rk \<Rightarrow>
               if rk \<noteq> 0 then Some False
               else if MAX_IV_LENGTH < unat (aead_iv_length aead_xform) then Some False
               else (case is_valid_size (aead_iv_length aead_xform) iv_size of
                       None \<Rightarrow> None
                     | Some ri \<Rightarrow>
                         if ri \<noteq> 0 then Some False
                         else (case is_valid_size (aead_digest_length aead_xform)
                                      digest_size of
                                 None \<Rightarrow> None
                               | Some rd \<Rightarrow> Some (rd = 0)))))"

definition cipher_dev_check ::
  "rte_cryptodev_capabilities list \<Rightarrow> cipher_xform_t \<Rightarrow> bool option" where
  "cipher_dev_check caps cx =
     (case find_cipher_cap caps (cipher_algo cx) of
        None \<Rightarrow> Some False
      | Some (key_size, iv_size) \<Rightarrow>
          (case is_valid_size (cipher_key_length cx) key_size of
             None \<Rightarrow> None
           | Some rk \<Rightarrow>
               if rk \<noteq> 0 then Some False
               else if MAX_IV_LENGTH < unat (cipher_iv_length cx) then Some False
               else (case is_valid_size (cipher_iv_length cx) iv_size of
                       None \<Rightarrow> None
                     | Some ri \<Rightarrow> Some (ri = 0))))"

definition auth_dev_check ::
  "rte_cryptodev_capabilities list \<Rightarrow> auth_xform_t \<Rightarrow> bool option" where
  "auth_dev_check caps ax =
     (case find_auth_cap caps (auth_algo ax) of
        None \<Rightarrow> Some False
      | Some (key_size, digest_size, iv_size) \<Rightarrow>
          (case is_valid_size (auth_key_length ax) key_size of
             None \<Rightarrow> None
           | Some rk \<Rightarrow>
               if rk \<noteq> 0 then Some False
               else (case is_valid_size (auth_digest_length ax) digest_size of
                       None \<Rightarrow> None
                     | Some rd \<Rightarrow>
                         if rd \<noteq> 0 then Some False
                         else if MAX_IV_LENGTH < unat (auth_iv_length ax) then Some False
                         else (case is_valid_size (auth_iv_length ax) iv_size of
                                 None \<Rightarrow> None
                               | Some ri \<Rightarrow> Some (ri = 0)))))"

text \<open>The label \<^verbatim>\<open>check_auth\<close> of \<^verbatim>\<open>get_crypto_dev\<close> and what follows it.\<close>

definition check_auth ::
  "rte_cryptodev_capabilities list \<Rightarrow> cipher_xform_t \<Rightarrow> auth_xform_t \<Rightarrow> bool option" where
  "check_auth caps cx ax =
     (if auth_algo ax = RTE_CRYPTO_AUTH_NULL \<and> cipher_algo cx \<noteq> RTE_CRYPTO_CIPHER_NULL
      then Some True
      else auth_dev_check caps ax)"

definition crypto_dev_check ::
  "rte_cryptodev_capabilities list \<Rightarrow> cipher_xform_t \<Rightarrow> auth_xform_t \<Rightarrow> bool option" where
  "crypto_dev_check caps cx ax =
     (if cipher_algo cx = RTE_CRYPTO_CIPHER_NULL then check_auth caps cx ax
      else (case cipher_dev_check caps cx of
              None \<Rightarrow> None
            | Some False \<Rightarrow> Some False
            | Some True \<Rightarrow> check_auth caps cx ax))"

text \<open>
  The device loops, from the index \<open>idx\<close> of the enabled list on (the \<^verbatim>\<open>uint8_t\<close>
  counter stays below \<^verbatim>\<open>enabled_crypto_devs\<close>, so it does not wrap). The result is
  \<open>Some (Some cdev_id)\<close> for \<^verbatim>\<open>return 0\<close> with \<^verbatim>\<open>*dev_id\<close> written, \<open>Some None\<close> for
  \<^verbatim>\<open>return -1\<close>, and \<open>None\<close> when a size check never returns.
\<close>

function get_crypto_aead_dev_loop ::
  "platform \<Rightarrow> crypto_global_t \<Rightarrow> aead_xform_t \<Rightarrow> nat \<Rightarrow> 8 word option option" where
  "get_crypto_aead_dev_loop plat g aead_xform idx =
     (if idx < unat (enabled_crypto_devs g) then
        (case aead_dev_check
                (capabilities (rte_cryptodev_info_get plat (enabled_crypto_dev_ids g idx)))
                aead_xform of
           None \<Rightarrow> None
         | Some True \<Rightarrow> Some (Some (enabled_crypto_dev_ids g idx))
         | Some False \<Rightarrow> get_crypto_aead_dev_loop plat g aead_xform (idx + 1))
      else Some None)"
  by pat_completeness auto
termination
  by (relation "measure (\<lambda>(plat, g, aead_xform, idx). unat (enabled_crypto_devs g) - idx)")
    auto

declare get_crypto_aead_dev_loop.simps [simp del]

definition get_crypto_aead_dev ::
  "platform \<Rightarrow> crypto_global_t \<Rightarrow> aead_xform_t \<Rightarrow> 8 word option option" where
  "get_crypto_aead_dev plat g aead_xform = get_crypto_aead_dev_loop plat g aead_xform 0"

function get_crypto_dev_loop ::
  "platform \<Rightarrow> crypto_global_t \<Rightarrow> cipher_xform_t \<Rightarrow> auth_xform_t \<Rightarrow> nat \<Rightarrow>
   8 word option option" where
  "get_crypto_dev_loop plat g cx ax idx =
     (if idx < unat (enabled_crypto_devs g) then
        (case crypto_dev_check
                (capabilities (rte_cryptodev_info_get plat (enabled_crypto_dev_ids g idx)))
                cx ax of
           None \<Rightarrow> None
         | Some True \<Rightarrow> Some (Some (enabled_crypto_dev_ids g idx))
         | Some False \<Rightarrow> get_crypto_dev_loop plat g cx ax (idx + 1))
      else Some None)"
  by pat_completeness auto
termination
  by (relation "measure (\<lambda>(plat, g, cx, ax, idx). unat (enabled_crypto_devs g) - idx)")
    auto

declare get_crypto_dev_loop.simps [simp del]

definition get_crypto_dev ::
  "platform \<Rightarrow> crypto_global_t \<Rightarrow> cipher_xform_t \<Rightarrow> auth_xform_t \<Rightarrow>
   8 word option option" where
  "get_crypto_dev plat g cx ax = get_crypto_dev_loop plat g cx ax 0"

text \<open>
  The constraints of the device selector, as a predicate of one device: an entry for the
  algorithm is found and its ranges support the requested lengths, an IV being at most
  \<^verbatim>\<open>MAX_IV_LENGTH\<close> bytes.
\<close>

definition aead_accepted ::
  "rte_cryptodev_capabilities list \<Rightarrow> aead_xform_t \<Rightarrow> bool" where
  "aead_accepted caps aead_xform \<longleftrightarrow>
     (case find_aead_cap caps (aead_algo aead_xform) of
        None \<Rightarrow> False
      | Some (key_size, digest_size, iv_size) \<Rightarrow>
          size_supported (aead_key_length aead_xform) key_size \<and>
          unat (aead_iv_length aead_xform) \<le> MAX_IV_LENGTH \<and>
          size_supported (aead_iv_length aead_xform) iv_size \<and>
          size_supported (aead_digest_length aead_xform) digest_size)"

definition cipher_accepted ::
  "rte_cryptodev_capabilities list \<Rightarrow> cipher_xform_t \<Rightarrow> bool" where
  "cipher_accepted caps cx \<longleftrightarrow>
     (case find_cipher_cap caps (cipher_algo cx) of
        None \<Rightarrow> False
      | Some (key_size, iv_size) \<Rightarrow>
          size_supported (cipher_key_length cx) key_size \<and>
          unat (cipher_iv_length cx) \<le> MAX_IV_LENGTH \<and>
          size_supported (cipher_iv_length cx) iv_size)"

definition auth_accepted ::
  "rte_cryptodev_capabilities list \<Rightarrow> auth_xform_t \<Rightarrow> bool" where
  "auth_accepted caps ax \<longleftrightarrow>
     (case find_auth_cap caps (auth_algo ax) of
        None \<Rightarrow> False
      | Some (key_size, digest_size, iv_size) \<Rightarrow>
          size_supported (auth_key_length ax) key_size \<and>
          size_supported (auth_digest_length ax) digest_size \<and>
          unat (auth_iv_length ax) \<le> MAX_IV_LENGTH \<and>
          size_supported (auth_iv_length ax) iv_size)"

text \<open>
  A device passes for a cipher and auth pair when the cipher is NULL or accepted, and the
  auth is accepted or is NULL beside a cipher that is not NULL.
\<close>

definition dev_accepts ::
  "rte_cryptodev_capabilities list \<Rightarrow> cipher_xform_t \<Rightarrow> auth_xform_t \<Rightarrow> bool" where
  "dev_accepts caps cx ax \<longleftrightarrow>
     (cipher_algo cx = RTE_CRYPTO_CIPHER_NULL \<or> cipher_accepted caps cx) \<and>
     (auth_accepted caps ax \<or>
      (auth_algo ax = RTE_CRYPTO_AUTH_NULL \<and> cipher_algo cx \<noteq> RTE_CRYPTO_CIPHER_NULL))"

text \<open>
  The size check agrees with the rule of the data model on a length and a range when it
  returns, with 0 for a supported length and \<open>-1\<close> otherwise. The next predicates say this
  of the size checks that the scan of one device makes, in the order and under the
  conditions in which it makes them: a later check is made only when the earlier ones
  passed, and the auth checks only when the cipher part passed and the auth is not a NULL
  beside a cipher that is not NULL.
\<close>

definition size_check_agrees :: "16 word \<Rightarrow> rte_crypto_param_range \<Rightarrow> bool" where
  "size_check_agrees len rg \<longleftrightarrow>
     is_valid_size len rg = Some (if size_supported len rg then 0 else - 1)"

definition aead_checks_agree ::
  "rte_cryptodev_capabilities list \<Rightarrow> aead_xform_t \<Rightarrow> bool" where
  "aead_checks_agree caps aead_xform \<longleftrightarrow>
     (case find_aead_cap caps (aead_algo aead_xform) of
        None \<Rightarrow> True
      | Some (key_size, digest_size, iv_size) \<Rightarrow>
          size_check_agrees (aead_key_length aead_xform) key_size \<and>
          (size_supported (aead_key_length aead_xform) key_size \<and>
           unat (aead_iv_length aead_xform) \<le> MAX_IV_LENGTH \<longrightarrow>
             size_check_agrees (aead_iv_length aead_xform) iv_size \<and>
             (size_supported (aead_iv_length aead_xform) iv_size \<longrightarrow>
                size_check_agrees (aead_digest_length aead_xform) digest_size)))"

definition cipher_checks_agree ::
  "rte_cryptodev_capabilities list \<Rightarrow> cipher_xform_t \<Rightarrow> bool" where
  "cipher_checks_agree caps cx \<longleftrightarrow>
     (case find_cipher_cap caps (cipher_algo cx) of
        None \<Rightarrow> True
      | Some (key_size, iv_size) \<Rightarrow>
          size_check_agrees (cipher_key_length cx) key_size \<and>
          (size_supported (cipher_key_length cx) key_size \<and>
           unat (cipher_iv_length cx) \<le> MAX_IV_LENGTH \<longrightarrow>
             size_check_agrees (cipher_iv_length cx) iv_size))"

definition auth_checks_agree ::
  "rte_cryptodev_capabilities list \<Rightarrow> auth_xform_t \<Rightarrow> bool" where
  "auth_checks_agree caps ax \<longleftrightarrow>
     (case find_auth_cap caps (auth_algo ax) of
        None \<Rightarrow> True
      | Some (key_size, digest_size, iv_size) \<Rightarrow>
          size_check_agrees (auth_key_length ax) key_size \<and>
          (size_supported (auth_key_length ax) key_size \<longrightarrow>
             size_check_agrees (auth_digest_length ax) digest_size \<and>
             (size_supported (auth_digest_length ax) digest_size \<and>
              unat (auth_iv_length ax) \<le> MAX_IV_LENGTH \<longrightarrow>
                size_check_agrees (auth_iv_length ax) iv_size)))"

definition dev_checks_agree ::
  "rte_cryptodev_capabilities list \<Rightarrow> cipher_xform_t \<Rightarrow> auth_xform_t \<Rightarrow> bool" where
  "dev_checks_agree caps cx ax \<longleftrightarrow>
     (cipher_algo cx \<noteq> RTE_CRYPTO_CIPHER_NULL \<longrightarrow> cipher_checks_agree caps cx) \<and>
     ((cipher_algo cx = RTE_CRYPTO_CIPHER_NULL \<or> cipher_accepted caps cx) \<and>
      \<not> (auth_algo ax = RTE_CRYPTO_AUTH_NULL \<and> cipher_algo cx \<noteq> RTE_CRYPTO_CIPHER_NULL) \<longrightarrow>
        auth_checks_agree caps ax)"

text \<open>The capability array of the enabled device at position \<open>idx\<close>.\<close>

definition enabled_caps ::
  "platform \<Rightarrow> crypto_global_t \<Rightarrow> nat \<Rightarrow> rte_cryptodev_capabilities list" where
  "enabled_caps plat g idx =
     capabilities (rte_cryptodev_info_get plat (enabled_crypto_dev_ids g idx))"

section \<open>Session builder\<close>

text \<open>
  What the driver and the allocator answer during one \<^verbatim>\<open>odp_crypto_session_create\<close>:
  whether \<^verbatim>\<open>rte_malloc\<close> gives memory for the cipher (or AEAD) key and for the auth key,
  the session object \<^verbatim>\<open>rte_cryptodev_sym_session_create\<close> returns (\<open>None\<close> for \<^verbatim>\<open>NULL\<close>),
  and the return value of \<^verbatim>\<open>rte_cryptodev_sym_session_init\<close>.
\<close>

record create_env =
  malloc_cipher_key :: bool
  malloc_auth_key :: bool
  sym_session_create :: "nat option"
  sym_session_init :: int

definition crypto_init_key ::
  "bool \<Rightarrow> odp_crypto_key_t \<Rightarrow> (8 word list \<times> 16 word) option" where
  "crypto_init_key malloc_ok key =
     (if key_length key \<noteq> 0 then
        (if \<not> malloc_ok then None
         else Some (take (unat (key_length key)) (key_data key), ucast (key_length key)))
      else Some ([], ucast (key_length key)))"

definition crypto_fill_cipher_xform ::
  "create_env \<Rightarrow> odp_crypto_session_param_t \<Rightarrow> cipher_xform_t option" where
  "crypto_fill_cipher_xform env param =
     (case cipher_alg_odp_to_rte (cipher_alg param) of
        None \<Rightarrow> None
      | Some algo \<Rightarrow>
          (case crypto_init_key (malloc_cipher_key env) (cipher_key param) of
             None \<Rightarrow> None
           | Some (data, len) \<Rightarrow>
               Some \<lparr>cipher_algo = algo, cipher_key_data = data, cipher_key_length = len,
                     cipher_iv_length = ucast (iv_length (cipher_iv param)),
                     cipher_op = (if op param = ODP_CRYPTO_OP_ENCODE
                                  then RTE_CRYPTO_CIPHER_OP_ENCRYPT
                                  else RTE_CRYPTO_CIPHER_OP_DECRYPT)\<rparr>))"

definition crypto_fill_auth_xform ::
  "platform \<Rightarrow> create_env \<Rightarrow> odp_crypto_session_param_t \<Rightarrow> auth_xform_t option" where
  "crypto_fill_auth_xform plat env param =
     (case auth_alg_odp_to_rte (auth_alg param) of
        None \<Rightarrow> None
      | Some algo \<Rightarrow>
          (if PACKET_DIGEST_MAX plat < unat (ucast (auth_digest_len param) :: 16 word)
           then None
           else (case crypto_init_key (malloc_auth_key env) (auth_key param) of
                   None \<Rightarrow> None
                 | Some (data, len) \<Rightarrow>
                     Some \<lparr>auth_algo = algo,
                           auth_digest_length = ucast (auth_digest_len param),
                           auth_key_data = data, auth_key_length = len,
                           auth_iv_length = ucast (iv_length (auth_iv param)),
                           auth_op = (if op param = ODP_CRYPTO_OP_ENCODE
                                      then RTE_CRYPTO_AUTH_OP_GENERATE
                                      else RTE_CRYPTO_AUTH_OP_VERIFY)\<rparr>)))"

definition crypto_fill_aead_xform ::
  "platform \<Rightarrow> create_env \<Rightarrow> odp_crypto_session_param_t \<Rightarrow> aead_xform_t option" where
  "crypto_fill_aead_xform plat env param =
     (case cipher_aead_alg_odp_to_rte (cipher_alg param) of
        None \<Rightarrow> None
      | Some algo \<Rightarrow>
          (case crypto_init_key (malloc_cipher_key env) (cipher_key param) of
             None \<Rightarrow> None
           | Some (data, len) \<Rightarrow>
               if PACKET_AAD_MAX plat < unat (ucast (auth_aad_len param) :: 16 word)
               then None
               else if algo = RTE_CRYPTO_AEAD_AES_CCM \<and>
                       PACKET_AAD_MAX plat <
                         unat (ucast (auth_aad_len param) :: 16 word) + AES_CCM_AAD_OFFSET
               then None
               else if PACKET_DIGEST_MAX plat <
                         unat (ucast (auth_digest_len param) :: 16 word)
               then None
               else Some \<lparr>aead_algo = algo, aead_key_data = data, aead_key_length = len,
                          aead_iv_length = ucast (iv_length (cipher_iv param)),
                          aead_aad_length = ucast (auth_aad_len param),
                          aead_digest_length = ucast (auth_digest_len param),
                          aead_op = (if op param = ODP_CRYPTO_OP_ENCODE
                                     then RTE_CRYPTO_AEAD_OP_ENCRYPT
                                     else RTE_CRYPTO_AEAD_OP_DECRYPT)\<rparr>))"

text \<open>
  The two "Derive order" blocks of \<^verbatim>\<open>odp_crypto_session_create\<close>: the chain that starts
  at \<^verbatim>\<open>first_xform\<close> and follows \<^verbatim>\<open>next\<close>, as a list.
\<close>

definition derive_first_xform ::
  "odp_crypto_session_param_t \<Rightarrow> cipher_xform_t \<Rightarrow> auth_xform_t \<Rightarrow>
   rte_crypto_sym_xform list" where
  "derive_first_xform param cx ax =
     (let do_cipher_first =
            (if op param = ODP_CRYPTO_OP_ENCODE then auth_cipher_text param
             else \<not> auth_cipher_text param)
      in if cipher_alg param = ODP_CIPHER_ALG_NULL then [XFORM_AUTH ax]
         else if auth_alg param = ODP_AUTH_ALG_NULL then [XFORM_CIPHER cx]
         else if do_cipher_first then [XFORM_CIPHER cx, XFORM_AUTH ax]
         else [XFORM_AUTH ax, XFORM_CIPHER cx])"

text \<open>
  Faults of the C program that are not return values: a handle that is not the address of
  a slot is dereferenced, a modulus is zero, a union member or a variable is read that was
  never written, a copy writes past the end of the array it is given.
\<close>

datatype fault = Invalid_pointer | Division_by_zero | Undefined_read | Buffer_overrun

text \<open>
  What a call returns: the return value, \<^verbatim>\<open>*session_out\<close>, \<^verbatim>\<open>*status\<close>, the device and
  chain given to \<^verbatim>\<open>rte_cryptodev_sym_session_init\<close> when the call got that far, and
  the fault that happened on the way, if any. After a \<open>Buffer_overrun\<close> the memory behind
  the array is overwritten (the member that follows, the link and contents of the next
  slot, or what follows the array of slots): the state returned with it gives the slot as
  far as the array reaches and does not describe that memory.
\<close>

record create_return =
  create_rc :: int
  session_out :: odp_crypto_session_t
  status :: odp_crypto_ses_create_err_t
  init_chain :: "(8 word \<times> rte_crypto_sym_xform list) option"
  create_fault :: "fault option"

text \<open>The label \<^verbatim>\<open>err\<close>.\<close>

definition session_create_err ::
  "crypto_global_t \<Rightarrow> nat option \<Rightarrow> odp_crypto_ses_create_err_t \<Rightarrow>
   (8 word \<times> rte_crypto_sym_xform list) option \<Rightarrow> crypto_global_t \<times> create_return" where
  "session_create_err g session st chain =
     ((case session of
         None \<Rightarrow> g
       | Some s \<Rightarrow> free_session (memset_session g s) s),
      \<lparr>create_rc = - 1, session_out = ODP_CRYPTO_SESSION_INVALID, status = st,
       init_chain = chain, create_fault = None\<rparr>)"

text \<open>
  \<^verbatim>\<open>memcpy\<close> of a creation-time IV into an array of \<^verbatim>\<open>MAX_IV_LENGTH\<close> bytes of the
  session, made when the data pointer is not \<^verbatim>\<open>NULL\<close>. The number of bytes copied is
  \<^verbatim>\<open>param->..._iv.length\<close>, a \<^verbatim>\<open>uint32_t\<close> that nothing bounds here: \<open>cache_iv\<close> is
  what the array holds afterwards, and \<open>iv_overrun\<close> tells that the copy went on
  past its end, into the fields and the slots that follow (the length tests of the
  device selection read the length cut to 16 bits, and are skipped for a NULL
  algorithm). The bytes at the data pointer are the list \<open>d\<close>.
\<close>

definition cache_iv :: "8 word list \<Rightarrow> odp_crypto_iv_t \<Rightarrow> 8 word list" where
  "cache_iv dst iv =
     (case iv_data iv of
        None \<Rightarrow> dst
      | Some d \<Rightarrow>
          take MAX_IV_LENGTH (take (unat (iv_length iv)) d @ drop (unat (iv_length iv)) dst))"

definition iv_overrun :: "odp_crypto_iv_t \<Rightarrow> bool" where
  "iv_overrun iv \<longleftrightarrow> iv_data iv \<noteq> None \<and> MAX_IV_LENGTH < unat (iv_length iv)"

text \<open>
  \<^verbatim>\<open>odp_crypto_session_create\<close> from the test of \<^verbatim>\<open>rc\<close> after the device selection to the
  end. \<open>dev\<close> is the selector's answer; \<open>cxv\<close> and \<open>axv\<close> are the local variables
  \<^verbatim>\<open>cipher_xform\<close> and \<^verbatim>\<open>auth_xform\<close>. A successful call whose copy of an IV overruns
  the array answers \<open>create_fault = Some Buffer_overrun\<close>: the state beside it is then
  right up to the end of the array only, and says nothing of the memory behind it.
\<close>

definition session_create_setup ::
  "create_env \<Rightarrow> crypto_global_t \<Rightarrow> nat \<Rightarrow> odp_crypto_session_param_t \<Rightarrow>
   rte_crypto_sym_xform list \<Rightarrow> rte_crypto_sym_xform \<Rightarrow> rte_crypto_sym_xform \<Rightarrow>
   8 word option \<Rightarrow> crypto_global_t \<times> create_return" where
  "session_create_setup env g s param first_xform cxv axv dev =
     (case dev of
        None \<Rightarrow> session_create_err g (Some s) ODP_CRYPTO_SES_CREATE_ERR_ENOMEM None
      | Some dev_id \<Rightarrow>
          (case sym_session_create env of
             None \<Rightarrow> session_create_err g (Some s) ODP_CRYPTO_SES_CREATE_ERR_ENOMEM None
           | Some rte \<Rightarrow>
               if sym_session_init env < 0
               then session_create_err g (Some s) ODP_CRYPTO_SES_CREATE_ERR_ENOMEM
                      (Some (dev_id, first_xform))
               else
                 (g\<lparr>sessions := (sessions g)
                      (s := (sessions g s)
                         \<lparr>rte_session := Some rte,
                          cipher_xform := cxv,
                          auth_xform := axv,
                          cdev_nb_qpairs := enabled_crypto_dev_nb_qpairs g (unat dev_id),
                          cdev_id := dev_id,
                          cipher_iv_data :=
                            cache_iv (cipher_iv_data (sessions g s)) (cipher_iv param),
                          auth_iv_data :=
                            cache_iv (auth_iv_data (sessions g s)) (auth_iv param)\<rparr>)\<rparr>,
                  \<lparr>create_rc = 0, session_out = SESSION s,
                   status = ODP_CRYPTO_SES_CREATE_ERR_NONE,
                   init_chain = Some (dev_id, first_xform),
                   create_fault =
                     (if iv_overrun (cipher_iv param) \<or> iv_overrun (auth_iv param)
                      then Some Buffer_overrun else None)\<rparr>)))"

text \<open>
  \<^verbatim>\<open>odp_crypto_session_create\<close>. The result is \<open>None\<close> when the device selection never
  returns. For an AEAD session the local \<^verbatim>\<open>auth_xform\<close> is copied into the session
  without having been written.
\<close>

definition odp_crypto_session_create ::
  "platform \<Rightarrow> create_env \<Rightarrow> crypto_global_t \<Rightarrow> odp_crypto_session_param_t \<Rightarrow>
   (crypto_global_t \<times> create_return) option" where
  "odp_crypto_session_create plat env g param =
     (if rte_cryptodev_count plat = 0
      then Some (session_create_err g None ODP_CRYPTO_SES_CREATE_ERR_ENOMEM None)
      else
        (case alloc_session g of
           (g1, None) \<Rightarrow>
             Some (session_create_err g1 None ODP_CRYPTO_SES_CREATE_ERR_ENOMEM None)
         | (g1, Some s) \<Rightarrow>
             (let g2 = g1\<lparr>sessions := (sessions g1)(s := (sessions g1 s)\<lparr>p := param\<rparr>)\<rparr>
              in if cipher_is_aead (cipher_alg param) then
                   (case crypto_fill_aead_xform plat env (p (sessions g2 s)) of
                      None \<Rightarrow>
                        Some (session_create_err g2 (Some s)
                                ODP_CRYPTO_SES_CREATE_ERR_INV_CIPHER None)
                    | Some aead \<Rightarrow>
                        (case get_crypto_aead_dev plat g2 aead of
                           None \<Rightarrow> None
                         | Some dev \<Rightarrow>
                             Some (session_create_setup env g2 s param [XFORM_AEAD aead]
                                     (XFORM_AEAD aead) XFORM_UNINIT dev)))
                 else
                   (case crypto_fill_cipher_xform env (p (sessions g2 s)) of
                      None \<Rightarrow>
                        Some (session_create_err g2 (Some s)
                                ODP_CRYPTO_SES_CREATE_ERR_INV_CIPHER None)
                    | Some cx \<Rightarrow>
                        (case crypto_fill_auth_xform plat env (p (sessions g2 s)) of
                           None \<Rightarrow>
                             Some (session_create_err g2 (Some s)
                                     ODP_CRYPTO_SES_CREATE_ERR_INV_AUTH None)
                         | Some ax \<Rightarrow>
                             (case get_crypto_dev plat g2 cx ax of
                                None \<Rightarrow> None
                              | Some dev \<Rightarrow>
                                  Some (session_create_setup env g2 s param
                                          (derive_first_xform param cx ax)
                                          (XFORM_CIPHER cx) (XFORM_AUTH ax) dev)))))))"

text \<open>
  The return values of \<^verbatim>\<open>rte_cryptodev_sym_session_clear\<close> and
  \<^verbatim>\<open>rte_cryptodev_sym_session_free\<close> during one \<^verbatim>\<open>odp_crypto_session_destroy\<close>.
\<close>

record destroy_env =
  sym_session_clear :: int
  sym_session_free :: int

definition odp_crypto_session_destroy ::
  "destroy_env \<Rightarrow> crypto_global_t \<Rightarrow> odp_crypto_session_t \<Rightarrow>
   fault + (crypto_global_t \<times> int)" where
  "odp_crypto_session_destroy env g hdl =
     (case hdl of
        SESSION s \<Rightarrow>
          if MAX_SESSIONS \<le> s then Inl Invalid_pointer
          else if sym_session_clear env < 0 then Inr (g, - 1)
          else if sym_session_free env < 0 then Inr (g, - 1)
          else Inr (free_session (memset_session g s) s, 0)
      | _ \<Rightarrow> Inl Invalid_pointer)"

section \<open>Initialisation\<close>

text \<open>
  What the system answers during \<^verbatim>\<open>odp_crypto_init_global\<close>: whether the shared memory
  is reserved, whether a session mempool is created on a socket, the return values of
  \<^verbatim>\<open>rte_cryptodev_configure\<close>, \<^verbatim>\<open>rte_cryptodev_queue_pair_setup\<close> and
  \<^verbatim>\<open>rte_cryptodev_start\<close> per device, and whether the operation pool is created.
\<close>

record init_env =
  shm_reserve_ok :: bool
  mempool_create_ok :: "8 word \<Rightarrow> bool"
  configure_rc :: "8 word \<Rightarrow> int"
  queue_pair_setup_rc :: "8 word \<Rightarrow> nat \<Rightarrow> int"
  start_rc :: "8 word \<Rightarrow> int"
  op_pool_create_ok :: bool

text \<open>The loop that threads every slot onto the free list.\<close>

function init_free_list :: "nat \<Rightarrow> crypto_global_t \<Rightarrow> crypto_global_t" where
  "init_free_list idx g =
     (if idx < MAX_SESSIONS then
        init_free_list (idx + 1)
          (g\<lparr>sessions := (sessions g)(idx := (sessions g idx)\<lparr>next_entry := free g\<rparr>),
             free := Some idx\<rparr>)
      else g)"
  by pat_completeness auto
termination
  by (relation "measure (\<lambda>(idx, g). MAX_SESSIONS - idx)") auto

declare init_free_list.simps [simp del]

text \<open>The loop over the queue pairs of one device: \<open>False\<close> when a setup fails.\<close>

function queue_pair_setup_loop :: "init_env \<Rightarrow> 8 word \<Rightarrow> nat \<Rightarrow> nat \<Rightarrow> bool" where
  "queue_pair_setup_loop env dev nb_queue_pairs queue_pair =
     (if queue_pair < nb_queue_pairs then
        (if queue_pair_setup_rc env dev queue_pair < 0 then False
         else queue_pair_setup_loop env dev nb_queue_pairs (queue_pair + 1))
      else True)"
  by pat_completeness auto
termination
  by (relation "measure (\<lambda>(env, dev, nb, qp). nb - qp)") auto

declare queue_pair_setup_loop.simps [simp del]

text \<open>
  The loop over the devices, from \<^verbatim>\<open>cdev_count - 1\<close> down to \<open>0\<close>: \<open>init_devs plat env n\<close>
  has the devices \<open>n - 1, \<dots>, 0\<close> left. It returns \<open>0\<close> when the loop ends and \<open>-1\<close> for
  each \<^verbatim>\<open>return -1\<close> inside, with the global state and the list of the calls of
  \<^verbatim>\<open>rte_cryptodev_configure\<close> made so far (device and \<^verbatim>\<open>conf.nb_queue_pairs\<close>, a
  \<^verbatim>\<open>uint16_t\<close>).
\<close>

fun init_devs ::
  "platform \<Rightarrow> init_env \<Rightarrow> nat \<Rightarrow> crypto_global_t \<Rightarrow> (8 word \<times> 16 word) list \<Rightarrow>
   int \<times> crypto_global_t \<times> (8 word \<times> 16 word) list" where
  "init_devs plat env 0 g configured = (0, g, configured)"
| "init_devs plat env (Suc n) g configured =
     (let dev = (of_nat n :: 8 word);
          dev_info = rte_cryptodev_info_get plat dev;
          nb_queue_pairs =
            (if max_nb_queue_pairs dev_info < odp_cpu_count plat
             then max_nb_queue_pairs dev_info else odp_cpu_count plat);
          socket_id = rte_cryptodev_socket_id plat dev
      in if \<not> session_mempool g (unat socket_id) \<and> \<not> mempool_create_ok env socket_id
         then (- 1, g, configured)
         else
           (let g1 = g\<lparr>session_mempool := (session_mempool g)(unat socket_id := True)\<rparr>;
                configured1 = configured @ [(dev, ucast nb_queue_pairs)]
            in if configure_rc env dev < 0 then (- 1, g1, configured1)
               else if \<not> queue_pair_setup_loop env dev (unat nb_queue_pairs) 0
               then (- 1, g1, configured1)
               else if start_rc env dev < 0 then (- 1, g1, configured1)
               else
                 init_devs plat env n
                   (g1\<lparr>enabled_crypto_dev_ids :=
                         (enabled_crypto_dev_ids g1)
                           (unat (enabled_crypto_devs g1) := dev),
                       enabled_crypto_dev_nb_qpairs :=
                         (enabled_crypto_dev_nb_qpairs g1)
                           (unat (enabled_crypto_devs g1) := ucast nb_queue_pairs),
                       enabled_crypto_devs := enabled_crypto_devs g1 + 1\<rparr>)
                   configured1))"

record init_return =
  init_rc :: int
  init_global :: "crypto_global_t option"
  init_configured :: "(8 word \<times> 16 word) list"

text \<open>
  \<^verbatim>\<open>odp_crypto_init_global\<close>. \<open>init_global\<close> is the shared block \<^verbatim>\<open>global\<close> points to,
  \<open>None\<close> when it was not reserved. The sizes of the mempool caches and of the private
  session data do not reach the modelled state.
\<close>

definition odp_crypto_init_global :: "platform \<Rightarrow> init_env \<Rightarrow> init_return" where
  "odp_crypto_init_global plat env =
     (if \<not> shm_reserve_ok env
      then \<lparr>init_rc = - 1, init_global = None, init_configured = []\<rparr>
      else
        (let g = (init_free_list 0 zero_global)\<lparr>enabled_crypto_devs := 0\<rparr>
         in if is_crypto_dev_initialized g \<noteq> 0
            then \<lparr>init_rc = 0, init_global = Some g, init_configured = []\<rparr>
            else if rte_cryptodev_count plat = 0
            then \<lparr>init_rc = 0, init_global = Some g, init_configured = []\<rparr>
            else
              (case init_devs plat env (unat (rte_cryptodev_count plat)) g [] of
                 (rc, g1, configured) \<Rightarrow>
                   if rc \<noteq> 0
                   then \<lparr>init_rc = - 1, init_global = Some g1, init_configured = configured\<rparr>
                   else if \<not> op_pool_create_ok env
                   then \<lparr>init_rc = - 1, init_global = Some g1, init_configured = configured\<rparr>
                   else \<lparr>init_rc = 0,
                         init_global =
                           Some (g1\<lparr>crypto_op_pool := True, is_crypto_dev_initialized := 1\<rparr>),
                         init_configured = configured\<rparr>)))"

section \<open>Operation engine\<close>

datatype odp_crypto_hw_err_t =
    ODP_CRYPTO_HW_ERR_NONE
  | ODP_CRYPTO_HW_ERR_DMA
  | ODP_CRYPTO_HW_ERR_BP_DEPLETED

record odp_crypto_op_status_t =
  alg_err :: odp_crypto_alg_err_t
  hw_err :: odp_crypto_hw_err_t

record odp_crypto_packet_result_t =
  ok :: bool
  cipher_status :: odp_crypto_op_status_t
  auth_status :: odp_crypto_op_status_t














section \<open>Sequences of create and destroy calls\<close>

text \<open>
  A call of the session API with the answers of the driver during it. \<open>run_calls\<close>
  executes a sequence from a state of the pool and keeps, beside it, the set of sessions
  in use: the slots handed out by a successful create and not yet released by a destroy
  that returned 0. It is \<open>None\<close> when a call does not return, when a create copies an IV
  past the array of its slot (the memory after the call is then not described), or when a
  destroy is given a handle that is not in use (which the API forbids).
\<close>

datatype pool_call =
    Create odp_crypto_session_param_t create_env
  | Destroy odp_crypto_session_t destroy_env

fun run_calls ::
  "platform \<Rightarrow> crypto_global_t \<times> nat set \<Rightarrow> pool_call list \<Rightarrow>
   (crypto_global_t \<times> nat set) option" where
  "run_calls plat (g, in_use) [] = Some (g, in_use)"
| "run_calls plat (g, in_use) (Create param env # calls) =
     (case odp_crypto_session_create plat env g param of
        None \<Rightarrow> None
      | Some (g', r) \<Rightarrow>
          if create_fault r \<noteq> None then None
          else
            run_calls plat
              (g', (case session_out r of SESSION s \<Rightarrow> insert s in_use | _ \<Rightarrow> in_use))
              calls)"
| "run_calls plat (g, in_use) (Destroy hdl env # calls) =
     (case hdl of
        SESSION s \<Rightarrow>
          if s \<in> in_use then
            (case odp_crypto_session_destroy env g hdl of
               Inl f \<Rightarrow> None
             | Inr (g', rc) \<Rightarrow>
                 run_calls plat (g', if rc = 0 then in_use - {s} else in_use) calls)
          else None
      | _ \<Rightarrow> None)"

section \<open>An example system\<close>

text \<open>
  Two devices on one socket and four CPUs. Device 0 has one queue pair and advertises
  the NULL authentication, AES-CBC and HMAC-SHA256; device 1 has four queue pairs and
  advertises AES-CBC only. Every call of the driver succeeds during initialisation.
\<close>

definition example_caps0 :: "rte_cryptodev_capabilities list" where
  "example_caps0 =
     [\<lparr>cap_op = RTE_CRYPTO_OP_TYPE_SYMMETRIC,
       sym = Cap_auth RTE_CRYPTO_AUTH_NULL
               \<lparr>min_r = 0, max_r = 0, increment = 0\<rparr>
               \<lparr>min_r = 0, max_r = 0, increment = 0\<rparr>
               \<lparr>min_r = 0, max_r = 0, increment = 0\<rparr>\<rparr>,
      \<lparr>cap_op = RTE_CRYPTO_OP_TYPE_SYMMETRIC,
       sym = Cap_cipher RTE_CRYPTO_CIPHER_AES_CBC
               \<lparr>min_r = 16, max_r = 32, increment = 8\<rparr>
               \<lparr>min_r = 16, max_r = 16, increment = 0\<rparr>\<rparr>,
      \<lparr>cap_op = RTE_CRYPTO_OP_TYPE_SYMMETRIC,
       sym = Cap_auth RTE_CRYPTO_AUTH_SHA256_HMAC
               \<lparr>min_r = 1, max_r = 64, increment = 1\<rparr>
               \<lparr>min_r = 32, max_r = 32, increment = 0\<rparr>
               \<lparr>min_r = 0, max_r = 0, increment = 0\<rparr>\<rparr>,
      \<lparr>cap_op = RTE_CRYPTO_OP_TYPE_UNDEFINED, sym = Cap_not_specified\<rparr>]"

definition example_caps1 :: "rte_cryptodev_capabilities list" where
  "example_caps1 =
     [\<lparr>cap_op = RTE_CRYPTO_OP_TYPE_SYMMETRIC,
       sym = Cap_cipher RTE_CRYPTO_CIPHER_AES_CBC
               \<lparr>min_r = 16, max_r = 32, increment = 8\<rparr>
               \<lparr>min_r = 16, max_r = 16, increment = 0\<rparr>\<rparr>,
      \<lparr>cap_op = RTE_CRYPTO_OP_TYPE_UNDEFINED, sym = Cap_not_specified\<rparr>]"

definition example_platform :: platform where
  "example_platform =
     \<lparr>rte_cryptodev_count = 2,
      rte_cryptodev_info_get =
        (\<lambda>dev. if dev = 0
               then \<lparr>capabilities = example_caps0, max_nb_queue_pairs = 1\<rparr>
               else \<lparr>capabilities = example_caps1, max_nb_queue_pairs = 4\<rparr>),
      rte_cryptodev_socket_id = (\<lambda>dev. 0),
      odp_cpu_count = 4,
      PACKET_DIGEST_MAX = 64,
      PACKET_AAD_MAX = 32,
      ODP_POOL_INVALID = 4294967295,
      ODP_PACKET_INVALID = 4294967295\<rparr>"

definition example_init_env :: init_env where
  "example_init_env =
     \<lparr>shm_reserve_ok = True, mempool_create_ok = (\<lambda>socket. True),
      configure_rc = (\<lambda>dev. 0), queue_pair_setup_rc = (\<lambda>dev qp. 0),
      start_rc = (\<lambda>dev. 0), op_pool_create_ok = True\<rparr>"

text \<open>The state after \<^verbatim>\<open>odp_crypto_init_global\<close> on the example system.\<close>

definition example_global :: crypto_global_t where
  "example_global =
     the (init_global (odp_crypto_init_global example_platform example_init_env))"

text \<open>Driver answers with which a creation and a destruction succeed.\<close>

definition example_create_env :: create_env where
  "example_create_env =
     \<lparr>malloc_cipher_key = True, malloc_auth_key = True,
      sym_session_create = Some 1, sym_session_init = 0\<rparr>"

definition example_destroy_env :: destroy_env where
  "example_destroy_env = \<lparr>sym_session_clear = 0, sym_session_free = 0\<rparr>"

text \<open>
  Parameters of an AES-128-CBC and HMAC-SHA256 session that authenticates the ciphertext
  on encode; the cipher needs a 16-byte IV and none is given at creation.
\<close>

definition example_param :: odp_crypto_session_param_t where
  "example_param =
     \<lparr>op = ODP_CRYPTO_OP_ENCODE, auth_cipher_text = True,
      cipher_alg = ODP_CIPHER_ALG_AES_CBC,
      cipher_key = \<lparr>key_data = replicate 16 0, key_length = 16\<rparr>,
      cipher_iv = \<lparr>iv_data = None, iv_length = 16\<rparr>,
      auth_alg = ODP_AUTH_ALG_SHA256_HMAC,
      auth_key = \<lparr>key_data = replicate 32 0, key_length = 32\<rparr>,
      auth_iv = \<lparr>iv_data = None, iv_length = 0\<rparr>,
      auth_digest_len = 32, auth_aad_len = 0, output_pool = 4294967295\<rparr>"

text \<open>
  The slot of that session once it is created on the example system: it is placed on
  device 0, the only one with HMAC-SHA256.
\<close>

definition example_session :: crypto_session_entry_t where
  "example_session =
     \<lparr>next_entry = None, p = example_param, rte_session = Some 1,
      cipher_xform =
        XFORM_CIPHER
          \<lparr>cipher_algo = RTE_CRYPTO_CIPHER_AES_CBC, cipher_key_data = replicate 16 0,
           cipher_key_length = 16, cipher_iv_length = 16,
           cipher_op = RTE_CRYPTO_CIPHER_OP_ENCRYPT\<rparr>,
      auth_xform =
        XFORM_AUTH
          \<lparr>auth_algo = RTE_CRYPTO_AUTH_SHA256_HMAC, auth_digest_length = 32,
           auth_key_data = replicate 32 0, auth_key_length = 32, auth_iv_length = 0,
           auth_op = RTE_CRYPTO_AUTH_OP_GENERATE\<rparr>,
      cdev_nb_qpairs = 4, cdev_id = 0,
      cipher_iv_data = replicate MAX_IV_LENGTH 0,
      auth_iv_data = replicate MAX_IV_LENGTH 0\<rparr>"

text \<open>The state after that session has been created on the example system.\<close>

definition example_session_global :: crypto_global_t where
  "example_session_global =
     fst (the (odp_crypto_session_create example_platform example_create_env
                 example_global example_param))"



text \<open>
  Parameters of an AES-CBC session without authentication that come with a 30-byte auth
  IV; the selector makes no auth check for them.
\<close>

definition example_long_iv_param :: odp_crypto_session_param_t where
  "example_long_iv_param =
     \<lparr>op = ODP_CRYPTO_OP_ENCODE, auth_cipher_text = True,
      cipher_alg = ODP_CIPHER_ALG_AES_CBC,
      cipher_key = \<lparr>key_data = replicate 16 0, key_length = 16\<rparr>,
      cipher_iv = \<lparr>iv_data = None, iv_length = 16\<rparr>,
      auth_alg = ODP_AUTH_ALG_NULL,
      auth_key = \<lparr>key_data = [], key_length = 0\<rparr>,
      auth_iv = \<lparr>iv_data = Some (replicate 30 0), iv_length = 30\<rparr>,
      auth_digest_len = 0, auth_aad_len = 0, output_pool = 4294967295\<rparr>"

text \<open>
  The example system with AES-GCM added to device 1, the parameters of an AES-128-GCM
  session with a 12-byte IV, 8 bytes of AAD and a 16-byte digest, the slot of that session
  once it is created (on device 1, the first enabled), and the state after its creation.
\<close>

definition example_gcm_caps1 :: "rte_cryptodev_capabilities list" where
  "example_gcm_caps1 =
     [\<lparr>cap_op = RTE_CRYPTO_OP_TYPE_SYMMETRIC,
       sym = Cap_cipher RTE_CRYPTO_CIPHER_AES_CBC
               \<lparr>min_r = 16, max_r = 32, increment = 8\<rparr>
               \<lparr>min_r = 16, max_r = 16, increment = 0\<rparr>\<rparr>,
      \<lparr>cap_op = RTE_CRYPTO_OP_TYPE_SYMMETRIC,
       sym = Cap_aead RTE_CRYPTO_AEAD_AES_GCM
               \<lparr>min_r = 16, max_r = 32, increment = 8\<rparr>
               \<lparr>min_r = 8, max_r = 16, increment = 4\<rparr>
               \<lparr>min_r = 0, max_r = 240, increment = 1\<rparr>
               \<lparr>min_r = 12, max_r = 12, increment = 0\<rparr>\<rparr>,
      \<lparr>cap_op = RTE_CRYPTO_OP_TYPE_UNDEFINED, sym = Cap_not_specified\<rparr>]"

definition example_gcm_platform :: platform where
  "example_gcm_platform =
     example_platform
       \<lparr>rte_cryptodev_info_get :=
          (\<lambda>dev. if dev = 0
                 then \<lparr>capabilities = example_caps0, max_nb_queue_pairs = 1\<rparr>
                 else \<lparr>capabilities = example_gcm_caps1, max_nb_queue_pairs = 4\<rparr>)\<rparr>"




section \<open>The size check\<close>

text \<open>
  With \<open>max = 65535\<close> the test \<^verbatim>\<open>supp_size <= range->max\<close> always holds. When the
  increment is even the counter keeps its parity, so it never meets a length of the other
  parity: every return of the loop is excluded.
\<close>

lemma is_valid_size_loop_parity:
  assumes ret: "is_valid_size_loop len rg supp = Some y"
  shows "\<not> (max_r rg = - 1 \<and> even (increment rg) \<and> (even supp \<noteq> even len))"
proof (rule is_valid_size_loop.raw_induct
    [where P = "\<lambda>len rg supp y. \<not> (max_r rg = - 1 \<and> even (increment rg) \<and> (even supp \<noteq> even len))",
     OF _ ret])
  fix loop :: "16 word \<Rightarrow> rte_crypto_param_range \<Rightarrow> 16 word \<Rightarrow> int option"
  fix len rg supp y
  assume IH: "\<And>len rg supp y. loop len rg supp = Some y \<Longrightarrow>
                \<not> (max_r rg = - 1 \<and> even (increment rg) \<and> (even supp \<noteq> even len))"
    and body: "(if supp \<le> max_r rg then if len = supp then Some 0
                else loop len rg (supp + increment rg) else Some (- 1)) = Some y"
  show "\<not> (max_r rg = - 1 \<and> even (increment rg) \<and> (even supp \<noteq> even len))"
  proof
    assume inv: "max_r rg = - 1 \<and> even (increment rg) \<and> (even supp \<noteq> even len)"
    then have le: "supp \<le> max_r rg" by simp
    from inv have ne: "len \<noteq> supp" by auto
    from body le ne have "loop len rg (supp + increment rg) = Some y" by simp
    from IH[OF this] inv show False by simp
  qed
qed

text \<open>
  When the counter cannot wrap, the loop visits \<open>supp\<close>, \<open>supp + increment\<close>, \<open>\<dots>\<close> up to
  \<open>max\<close> and answers whether the length is among them.
\<close>

lemma is_valid_size_loop_no_wrap:
  assumes nw: "unat (max_r rg) + unat (increment rg) < 65536"
      and pos: "increment rg \<noteq> 0"
  shows "is_valid_size_loop len rg supp =
           Some (if (\<exists>k. unat supp + k * unat (increment rg) = unat len) \<and> len \<le> max_r rg
                 then 0 else - 1)"
proof (induction "unat (max_r rg) + 1 - unat supp" arbitrary: supp rule: less_induct)
  case less
  have ipos: "0 < unat (increment rg)" using pos by (simp add: unat_gt_0)
  show ?case
  proof (cases "supp \<le> max_r rg")
    case False
    then have gt: "unat (max_r rg) < unat supp" by (simp add: word_le_nat_alt)
    have "\<not> ((\<exists>k. unat supp + k * unat (increment rg) = unat len) \<and> len \<le> max_r rg)"
    proof
      assume "(\<exists>k. unat supp + k * unat (increment rg) = unat len) \<and> len \<le> max_r rg"
      then obtain k where "unat supp + k * unat (increment rg) = unat len" "unat len \<le> unat (max_r rg)"
        by (auto simp: word_le_nat_alt)
      with gt show False by arith
    qed
    with False show ?thesis by (subst is_valid_size_loop.simps) simp
  next
    case True
    then have le: "unat supp \<le> unat (max_r rg)" by (simp add: word_le_nat_alt)
    show ?thesis
    proof (cases "len = supp")
      case True
      have "unat supp + 0 * unat (increment rg) = unat supp" by simp
      then have "\<exists>k. unat supp + k * unat (increment rg) = unat supp" by blast
      with True \<open>supp \<le> max_r rg\<close> show ?thesis
        by (subst is_valid_size_loop.simps) simp
    next
      case False
      have sum: "unat (supp + increment rg) = unat supp + unat (increment rg)"
        using le nw by (simp add: unat_add_lem[THEN iffD1])
      have dec: "unat (max_r rg) + 1 - unat (supp + increment rg) < unat (max_r rg) + 1 - unat supp"
        using sum le ipos by arith
      have step: "is_valid_size_loop len rg supp = is_valid_size_loop len rg (supp + increment rg)"
        using True False by (subst is_valid_size_loop.simps) simp
      have ne: "unat supp \<noteq> unat len" using False by (simp add: word_unat_eq_iff)
      have ex: "(\<exists>k. unat supp + k * unat (increment rg) = unat len) \<longleftrightarrow>
                (\<exists>k. unat (supp + increment rg) + k * unat (increment rg) = unat len)"
      proof
        assume "\<exists>k. unat supp + k * unat (increment rg) = unat len"
        then obtain k where k: "unat supp + k * unat (increment rg) = unat len" by blast
        with ne have "k \<noteq> 0" by (cases k) auto
        then obtain j where "k = Suc j" by (cases k) auto
        with k sum have "unat (supp + increment rg) + j * unat (increment rg) = unat len" by simp
        then show "\<exists>k. unat (supp + increment rg) + k * unat (increment rg) = unat len" by blast
      next
        assume "\<exists>k. unat (supp + increment rg) + k * unat (increment rg) = unat len"
        then obtain k where "unat (supp + increment rg) + k * unat (increment rg) = unat len" by blast
        with sum have "unat supp + Suc k * unat (increment rg) = unat len" by simp
        then show "\<exists>k. unat supp + k * unat (increment rg) = unat len" by blast
      qed
      show ?thesis unfolding step less(1)[OF dec] ex ..
    qed
  qed
qed

lemma is_valid_size_no_wrap:
  assumes nw: "range_no_wrap rg"
  shows "is_valid_size len rg = Some (if size_supported len rg then 0 else - 1)"
proof (cases "len < min_r rg")
  case True
  then have "\<not> size_supported len rg" by (auto simp: size_supported_def)
  with True show ?thesis by (simp add: is_valid_size_def)
next
  case ge: False
  then have ge': "unat (min_r rg) \<le> unat len" by (simp add: word_less_nat_alt)
  show ?thesis
  proof (cases "increment rg = 0")
    case True
    show ?thesis
    proof (cases "min_r rg = len")
      case False
      with True ge show ?thesis by (auto simp: is_valid_size_def size_supported_def)
    next
      case eq: True
      with True ge show ?thesis
        by (auto simp: is_valid_size_def size_supported_def is_valid_size_loop.simps)
    qed
  next
    case False
    then have ipos: "0 < unat (increment rg)" by (simp add: unat_gt_0)
    have "(\<exists>k. unat (min_r rg) + k * unat (increment rg) = unat len) \<longleftrightarrow>
          (unat len - unat (min_r rg)) mod unat (increment rg) = 0"
    proof
      assume "\<exists>k. unat (min_r rg) + k * unat (increment rg) = unat len"
      then obtain k where "unat (min_r rg) + k * unat (increment rg) = unat len" by blast
      then have "unat len - unat (min_r rg) = k * unat (increment rg)" by arith
      then show "(unat len - unat (min_r rg)) mod unat (increment rg) = 0" by simp
    next
      assume "(unat len - unat (min_r rg)) mod unat (increment rg) = 0"
      then obtain k where "unat len - unat (min_r rg) = unat (increment rg) * k"
        by (auto simp: mod_eq_0_iff_dvd)
      with ge' have "unat (min_r rg) + k * unat (increment rg) = unat len" by (simp add: mult.commute)
      then show "\<exists>k. unat (min_r rg) + k * unat (increment rg) = unat len" by blast
    qed
    moreover have "is_valid_size len rg = is_valid_size_loop len rg (min_r rg)"
      using ge False by (simp add: is_valid_size_def)
    moreover have "0 < increment rg" using False by (simp add: word_greater_zero_iff)
    moreover have "len = min_r rg \<Longrightarrow> (unat len - unat (min_r rg)) mod unat (increment rg) = 0" by simp
    ultimately show ?thesis
      using is_valid_size_loop_no_wrap[OF nw[unfolded range_no_wrap_def] False, of len "min_r rg"] ge
      by (auto simp: size_supported_def)
  qed
qed

text \<open>
  C5. The size check is claimed to accept a length exactly when it is at least \<open>min\<close>, is
  \<open>min\<close> or lies a multiple of a positive increment above it, and is at most \<open>max\<close>. With
  the range \<open>(0, 65535, 40000)\<close> the 16-bit counter wraps from \<open>40000\<close> to \<open>14464\<close>, and the
  check accepts the length \<open>14464\<close>, which is no multiple of \<open>40000\<close>.
\<close>

theorem is_valid_size_accepts_after_wrap:
  "is_valid_size 14464 \<lparr>min_r = 0, max_r = 65535, increment = 40000\<rparr> = Some 0 \<and>
   \<not> size_supported 14464 \<lparr>min_r = 0, max_r = 65535, increment = 40000\<rparr>"
  by (simp add: is_valid_size_def is_valid_size_loop.simps size_supported_def)

text \<open>
  C10. The size check is claimed to return for every input. With the range
  \<open>(0, 65535, 2)\<close> and the length \<open>1\<close> the counter runs through the even numbers for ever:
  the check has no return value.
\<close>

theorem is_valid_size_never_returns:
  "is_valid_size 1 \<lparr>min_r = 0, max_r = 65535, increment = 2\<rparr> = None"
proof -
  have "is_valid_size_loop 1 \<lparr>min_r = 0, max_r = 65535, increment = 2\<rparr> 0 = None"
  proof (cases "is_valid_size_loop 1 \<lparr>min_r = 0, max_r = 65535, increment = 2\<rparr> 0")
    case (Some y)
    from is_valid_size_loop_parity[OF this] show ?thesis by simp
  qed simp
  then show ?thesis by (simp add: is_valid_size_def)
qed

section \<open>The free list\<close>

lemma count_free_chain:
  "free_chain ses ptr xs \<Longrightarrow> count_free ses ptr c = Some (c + int (length xs))"
proof (induction xs arbitrary: ptr c)
  case Nil
  then show ?case by (simp add: count_free.simps)
next
  case (Cons s rest)
  from Cons.prems have ptr: "ptr = Some s" and rest: "free_chain ses (next_entry (ses s)) rest"
    by simp_all
  from Cons.IH[OF rest, of "c + 1"] ptr show ?case
    by (subst count_free.simps) simp
qed

lemma count_free_next_only_aux:
  assumes ret: "count_free ses ptr c = Some y"
  shows "\<forall>ses' :: nat \<Rightarrow> crypto_session_entry_t.
           (\<forall>i. next_entry (ses' i) = next_entry (ses i)) \<longrightarrow>
           count_free ses' ptr c = Some y"
proof (rule count_free.raw_induct
    [where P = "\<lambda>ses ptr c y. \<forall>ses' :: nat \<Rightarrow> crypto_session_entry_t.
                   (\<forall>i. next_entry (ses' i) = next_entry (ses i)) \<longrightarrow>
                   count_free ses' ptr c = Some y", OF _ ret])
  fix loop :: "(nat \<Rightarrow> crypto_session_entry_t) \<Rightarrow> nat option \<Rightarrow> int \<Rightarrow> int option"
  fix ses ptr c y
  assume IH: "\<And>ses ptr c y. loop ses ptr c = Some y \<Longrightarrow>
                \<forall>ses' :: nat \<Rightarrow> crypto_session_entry_t. (\<forall>i. next_entry (ses' i) = next_entry (ses i)) \<longrightarrow>
                   count_free ses' ptr c = Some y"
    and body: "(case ptr of None \<Rightarrow> Some c
                | Some s \<Rightarrow> loop ses (next_entry (ses s)) (c + 1)) = Some y"
  show "\<forall>ses' :: nat \<Rightarrow> crypto_session_entry_t.
           (\<forall>i. next_entry (ses' i) = next_entry (ses i)) \<longrightarrow>
           count_free ses' ptr c = Some y"
  proof (intro allI impI)
    fix ses' :: "nat \<Rightarrow> crypto_session_entry_t"
    assume same: "\<forall>i. next_entry (ses' i) = next_entry (ses i)"
    show "count_free ses' ptr c = Some y"
    proof (cases ptr)
      case None
      with body show ?thesis by (simp add: count_free.simps)
    next
      case (Some s)
      with body have "loop ses (next_entry (ses s)) (c + 1) = Some y" by simp
      from IH[OF this] same
      have "count_free ses' (next_entry (ses s)) (c + 1) = Some y" by blast
      with Some same show ?thesis by (subst count_free.simps) simp
    qed
  qed
qed

lemma count_free_next_only:
  assumes same: "\<forall>i. next_entry (ses' i) = next_entry (ses i)"
  shows "count_free ses' ptr c = count_free ses ptr c"
proof (cases "count_free ses ptr c")
  case (Some y)
  with count_free_next_only_aux[OF Some] same show ?thesis by simp
next
  case None
  show ?thesis
  proof (cases "count_free ses' ptr c")
    case (Some y)
    from count_free_next_only_aux[OF Some] same have "count_free ses ptr c = Some y"
      by simp
    with None show ?thesis by simp
  next
    case None': None
    with None show ?thesis by simp
  qed
qed

lemma free_chain_update_other:
  "s \<notin> set xs \<Longrightarrow> free_chain (ses(s := e)) ptr xs = free_chain ses ptr xs"
  by (induction xs arbitrary: ptr) auto

lemma free_chain_next_only:
  "\<forall>i. next_entry (ses' i) = next_entry (ses i) \<Longrightarrow>
   free_chain ses' ptr xs = free_chain ses ptr xs"
  by (induction xs arbitrary: ptr) auto

section \<open>Effects of allocation, release, creation and destruction\<close>

lemma alloc_session_some:
  "free g = Some s \<Longrightarrow>
   alloc_session g =
     (g\<lparr>free := next_entry (sessions g s),
        sessions := (sessions g)(s := (sessions g s)\<lparr>next_entry := None\<rparr>)\<rparr>, Some s)"
  by (simp add: alloc_session_def)

lemma create_err_after_alloc:
  "free g = Some s \<Longrightarrow>
   session_create_err
     (g\<lparr>free := next_entry (sessions g s), sessions := (sessions g)(s := e)\<rparr>)
     (Some s) st ch =
   (rolled_back g s,
    \<lparr>create_rc = - 1, session_out = ODP_CRYPTO_SESSION_INVALID, status = st,
     init_chain = ch, create_fault = None\<rparr>)"
  by (simp add: session_create_err_def free_session_def memset_session_def
      rolled_back_def zero_session_def)

lemma create_failure:
  assumes run: "odp_crypto_session_create plat env g param = Some (g', r)"
    and rc: "create_rc r \<noteq> 0"
  shows "create_rc r = - 1 \<and> session_out r = ODP_CRYPTO_SESSION_INVALID \<and>
         g' = (if rte_cryptodev_count plat = 0 then g
               else (case free g of None \<Rightarrow> g | Some s \<Rightarrow> rolled_back g s))"
proof (cases "rte_cryptodev_count plat = 0")
  case True
  with run show ?thesis
    by (auto simp: odp_crypto_session_create_def session_create_err_def)
next
  case nz: False
  show ?thesis
  proof (cases "free g")
    case None
    with run nz show ?thesis
      by (auto simp: odp_crypto_session_create_def session_create_err_def alloc_session_def)
  next
    case (Some s)
    with run nz rc show ?thesis
      by (auto simp: odp_crypto_session_create_def alloc_session_def Let_def
          create_err_after_alloc session_create_setup_def
          split: if_splits option.splits)
  qed
qed

section \<open>Initialisation of the pool\<close>


lemma init_free_list_fields:
  "enabled_crypto_devs (init_free_list idx g) = enabled_crypto_devs g \<and>
   enabled_crypto_dev_ids (init_free_list idx g) = enabled_crypto_dev_ids g \<and>
   enabled_crypto_dev_nb_qpairs (init_free_list idx g) = enabled_crypto_dev_nb_qpairs g \<and>
   is_crypto_dev_initialized (init_free_list idx g) = is_crypto_dev_initialized g \<and>
   crypto_op_pool (init_free_list idx g) = crypto_op_pool g \<and>
   session_mempool (init_free_list idx g) = session_mempool g"
proof (induction idx g rule: init_free_list.induct)
  case (1 idx g)
  show ?case
  proof (cases "idx < MAX_SESSIONS")
    case True
    with 1 show ?thesis by (subst (1 2 3 4 5 6) init_free_list.simps) simp
  next
    case False
    then show ?thesis by (subst (1 2 3 4 5 6) init_free_list.simps) simp
  qed
qed

lemma init_free_list_slots:
  "(sessions (init_free_list idx g) i)\<lparr>next_entry := x\<rparr> = (sessions g i)\<lparr>next_entry := x\<rparr>"
proof (induction idx g rule: init_free_list.induct)
  case (1 idx g)
  show ?case
  proof (cases "idx < MAX_SESSIONS")
    case True
    with 1 show ?thesis by (subst init_free_list.simps) simp
  next
    case False
    then show ?thesis by (subst init_free_list.simps) simp
  qed
qed

lemma init_free_list_chain:
  "free_chain (sessions g) (free g) xs \<Longrightarrow> \<forall>x \<in> set xs. x < idx \<Longrightarrow>
   free_chain (sessions (init_free_list idx g)) (free (init_free_list idx g))
     (rev [idx..<MAX_SESSIONS] @ xs)"
proof (induction idx g arbitrary: xs rule: init_free_list.induct)
  case (1 idx g)
  show ?case
  proof (cases "idx < MAX_SESSIONS")
    case False
    with 1(2) show ?thesis by (subst (1 2) init_free_list.simps) simp
  next
    case True
    define g1 where
      "g1 = g\<lparr>sessions := (sessions g)(idx := (sessions g idx)\<lparr>next_entry := free g\<rparr>),
              free := Some idx\<rparr>"
    have notin: "idx \<notin> set xs" using 1(3) by auto
    have c1: "free_chain (sessions g1) (free g1) (idx # xs)"
      using 1(2) notin by (simp add: g1_def free_chain_update_other)
    have c2: "\<forall>x \<in> set (idx # xs). x < idx + 1" using 1(3) by auto
    have "free_chain (sessions (init_free_list (idx + 1) g1)) (free (init_free_list (idx + 1) g1))
         (rev [idx + 1..<MAX_SESSIONS] @ idx # xs)"
      unfolding g1_def by (rule 1(1)[OF True c1[unfolded g1_def] c2])
    moreover have "init_free_list idx g = init_free_list (idx + 1) g1"
      using True by (subst init_free_list.simps) (simp add: g1_def)
    moreover have "rev [idx..<MAX_SESSIONS] @ xs = rev [idx + 1..<MAX_SESSIONS] @ idx # xs"
      using True by (simp add: upt_conv_Cons)
    ultimately show ?thesis by simp
  qed
qed

lemma init_devs_pool:
  "init_devs plat env n g cfg = (rc, g', cfg') \<Longrightarrow> free g' = free g \<and> sessions g' = sessions g"
proof (induction n arbitrary: g cfg)
  case 0
  then show ?case by simp
next
  case (Suc n)
  then show ?case
    by (auto simp: Let_def split: if_splits dest!: Suc.IH)
qed

lemma init_global_pool:
  assumes "init_global (odp_crypto_init_global plat env) = Some g0"
  shows "free g0 = free (init_free_list 0 zero_global) \<and>
         sessions g0 = sessions (init_free_list 0 zero_global)"
proof (cases "init_devs plat env (unat (rte_cryptodev_count plat))
                ((init_free_list 0 zero_global)\<lparr>enabled_crypto_devs := 0\<rparr>) []")
  case (fields rc g1 cfg)
  from init_devs_pool[OF fields] have "free g1 = free (init_free_list 0 zero_global)"
    and "sessions g1 = sessions (init_free_list 0 zero_global)" by simp_all
  with assms fields show ?thesis
    by (auto simp: odp_crypto_init_global_def Let_def split: if_splits)
qed

section \<open>Conservation of the pool\<close>

lemma pool_conserved_length:
  assumes "pool_conserved g in_use"
  shows "\<exists>n. free_list_length g = Some (int n) \<and> card in_use + n = MAX_SESSIONS"
proof -
  from assms obtain xs where ch: "free_chain (sessions g) (free g) xs" and d: "distinct xs"
    and dj: "set xs \<inter> in_use = {}" and un: "set xs \<union> in_use = {..<MAX_SESSIONS}"
    by (auto simp: pool_conserved_def)
  have fin: "finite in_use"
  proof (rule finite_subset)
    show "in_use \<subseteq> {..<MAX_SESSIONS}" using un by blast
  qed simp
  have "card (set xs \<union> in_use) = card (set xs) + card in_use"
    by (rule card_Un_disjoint[OF _ fin dj]) simp
  with un d have "card in_use + length xs = MAX_SESSIONS"
    by (simp add: distinct_card)
  moreover have "free_list_length g = Some (int (length xs))"
    using count_free_chain[OF ch, of 0] by (simp add: free_list_length_def)
  ultimately show ?thesis by blast
qed

lemma pool_conserved_init:
  assumes "init_global (odp_crypto_init_global plat env) = Some g0"
  shows "pool_conserved g0 {}"
proof -
  have "free_chain (sessions zero_global) (free zero_global) []"
    by (simp add: zero_global_def)
  from init_free_list_chain[OF this, of 0]
  have "free_chain (sessions (init_free_list 0 zero_global)) (free (init_free_list 0 zero_global))
          (rev [0..<MAX_SESSIONS])" by simp
  with init_global_pool[OF assms]
  have "free_chain (sessions g0) (free g0) (rev [0..<MAX_SESSIONS])" by simp
  moreover have "distinct (rev [0..<MAX_SESSIONS])" by simp
  moreover have "set (rev [0..<MAX_SESSIONS]) \<union> {} = {..<MAX_SESSIONS}" by auto
  ultimately show ?thesis unfolding pool_conserved_def by blast
qed

lemma rolled_back_links:
  "free (rolled_back g s) = free g \<and>
   (\<forall>i. next_entry (sessions (rolled_back g s) i) = next_entry (sessions g i))"
  by (simp add: rolled_back_def)

lemma create_failure_links:
  assumes run: "odp_crypto_session_create plat env g param = Some (g', r)"
    and rc: "create_rc r \<noteq> 0"
  shows "free g' = free g \<and> (\<forall>i. next_entry (sessions g' i) = next_entry (sessions g i))"
  using create_failure[OF run rc] rolled_back_links
  by (auto split: option.splits if_splits)

lemma create_success:
  assumes run: "odp_crypto_session_create plat env g param = Some (g', r)"
    and rc: "create_rc r = 0"
  shows "\<exists>s. rte_cryptodev_count plat \<noteq> 0 \<and> free g = Some s \<and> session_out r = SESSION s \<and>
             g' = g\<lparr>free := next_entry (sessions g s),
                    sessions := (sessions g)(s := sessions g' s)\<rparr>"
proof (cases "rte_cryptodev_count plat = 0")
  case True
  with run rc show ?thesis
    by (auto simp: odp_crypto_session_create_def session_create_err_def)
next
  case nz: False
  show ?thesis
  proof (cases "free g")
    case None
    with run nz rc show ?thesis
      by (auto simp: odp_crypto_session_create_def session_create_err_def alloc_session_def)
  next
    case (Some s)
    with run nz rc show ?thesis
      by (auto simp: odp_crypto_session_create_def alloc_session_def Let_def
          create_err_after_alloc session_create_setup_def
          split: if_splits option.splits)
  qed
qed

lemma pool_conserved_create:
  assumes inv: "pool_conserved g in_use"
    and run: "odp_crypto_session_create plat env g param = Some (g', r)"
  shows "pool_conserved g'
           (case session_out r of SESSION s \<Rightarrow> insert s in_use | _ \<Rightarrow> in_use)"
proof (cases "create_rc r = 0")
  case False
  from create_failure[OF run False] have out: "session_out r = ODP_CRYPTO_SESSION_INVALID"
    by simp
  from create_failure_links[OF run False]
  have "\<And>xs. free_chain (sessions g') (free g') xs = free_chain (sessions g) (free g) xs"
    by (simp add: free_chain_next_only)
  with inv out show ?thesis by (simp add: pool_conserved_def)
next
  case True
  from create_success[OF run True] obtain s where hd: "free g = Some s"
    and out: "session_out r = SESSION s"
    and g': "g' = g\<lparr>free := next_entry (sessions g s),
                      sessions := (sessions g)(s := sessions g' s)\<rparr>" by blast
  from inv obtain xs where ch: "free_chain (sessions g) (free g) xs" and d: "distinct xs"
    and dj: "set xs \<inter> in_use = {}" and un: "set xs \<union> in_use = {..<MAX_SESSIONS}"
    by (auto simp: pool_conserved_def)
  from ch hd obtain rest where xs: "xs = s # rest"
    and chr: "free_chain (sessions g) (next_entry (sessions g s)) rest"
    by (cases xs) auto
  from d xs have notin: "s \<notin> set rest" by simp
  define e where "e = sessions g' s"
  have g'': "g' = g\<lparr>free := next_entry (sessions g s), sessions := (sessions g)(s := e)\<rparr>"
    unfolding e_def by (rule g')
  have "free_chain (sessions g') (free g') rest"
    unfolding g'' by (simp add: free_chain_update_other[OF notin] chr)
  moreover have "distinct rest" using d xs by simp
  moreover have "set rest \<inter> insert s in_use = {}" using dj notin xs by auto
  moreover have "set rest \<union> insert s in_use = {..<MAX_SESSIONS}" using un xs by auto
  ultimately have "pool_conserved g' (insert s in_use)"
    unfolding pool_conserved_def by (intro exI[of _ rest] conjI)
  with out show ?thesis by simp
qed

lemma destroy_failure:
  assumes "sym_session_clear env < 0 \<or> sym_session_free env < 0" and "s < MAX_SESSIONS"
  shows "odp_crypto_session_destroy env g (SESSION s) = Inr (g, - 1)"
  using assms by (auto simp: odp_crypto_session_destroy_def)

lemma destroy_success:
  assumes "\<not> (sym_session_clear env < 0 \<or> sym_session_free env < 0)" and "s < MAX_SESSIONS"
  shows "odp_crypto_session_destroy env g (SESSION s) =
           Inr (g\<lparr>sessions := (sessions g)(s := zero_session\<lparr>next_entry := free g\<rparr>),
                  free := Some s\<rparr>, 0)"
  using assms
  by (simp add: odp_crypto_session_destroy_def free_session_def memset_session_def)

lemma destroy_in_range:
  "odp_crypto_session_destroy env g (SESSION s) = Inr res \<Longrightarrow> s < MAX_SESSIONS"
  by (simp add: odp_crypto_session_destroy_def split: if_splits)

lemma pool_conserved_destroy:
  assumes inv: "pool_conserved g in_use" and live: "s \<in> in_use"
    and run: "odp_crypto_session_destroy env g (SESSION s) = Inr (g', rc)"
  shows "pool_conserved g' (if rc = 0 then in_use - {s} else in_use)"
proof (cases "sym_session_clear env < 0 \<or> sym_session_free env < 0")
  case True
  from destroy_failure[OF True destroy_in_range[OF run], of g] run
  have "g' = g" and "rc = - 1" by simp_all
  with inv show ?thesis by simp
next
  case False
  from destroy_success[OF False destroy_in_range[OF run], of g] run
  have g': "g' = g\<lparr>sessions := (sessions g)(s := zero_session\<lparr>next_entry := free g\<rparr>),
                      free := Some s\<rparr>" and rc: "rc = 0" by simp_all
  from inv obtain xs where ch: "free_chain (sessions g) (free g) xs" and d: "distinct xs"
    and dj: "set xs \<inter> in_use = {}" and un: "set xs \<union> in_use = {..<MAX_SESSIONS}"
    by (auto simp: pool_conserved_def)
  from dj live have notin: "s \<notin> set xs" by auto
  have "free_chain (sessions g') (free g') (s # xs)"
    unfolding g' by (simp add: free_chain_update_other[OF notin] ch)
  moreover have "distinct (s # xs)" using d notin by simp
  moreover have "set (s # xs) \<inter> (in_use - {s}) = {}" using dj by auto
  moreover have "set (s # xs) \<union> (in_use - {s}) = {..<MAX_SESSIONS}" using un live by auto
  ultimately have "pool_conserved g' (in_use - {s})"
    unfolding pool_conserved_def by (intro exI[of _ "s # xs"] conjI)
  with rc show ?thesis by simp
qed

lemma pool_conserved_run:
  "pool_conserved g in_use \<Longrightarrow> run_calls plat (g, in_use) calls = Some (g', in_use') \<Longrightarrow>
   pool_conserved g' in_use'"
proof (induction calls arbitrary: g in_use)
  case Nil
  then show ?case by simp
next
  case (Cons c calls)
  show ?case
  proof (cases c)
    case (Create param env)
    with Cons.prems(2) obtain g1 r where
      cr: "odp_crypto_session_create plat env g param = Some (g1, r)"
      and rest: "run_calls plat
                   (g1, (case session_out r of SESSION s \<Rightarrow> insert s in_use | _ \<Rightarrow> in_use))
                   calls = Some (g', in_use')"
      by (auto split: option.splits if_splits)
    from Cons.IH[OF pool_conserved_create[OF Cons.prems(1) cr] rest] show ?thesis .
  next
    case (Destroy hdl env)
    with Cons.prems(2) obtain s g1 rc where hdl: "hdl = SESSION s" and live: "s \<in> in_use"
      and de: "odp_crypto_session_destroy env g (SESSION s) = Inr (g1, rc)"
      and rest: "run_calls plat (g1, if rc = 0 then in_use - {s} else in_use) calls =
                   Some (g', in_use')"
      by (auto split: odp_crypto_session_t.splits if_splits sum.splits)
    from Cons.IH[OF pool_conserved_destroy[OF Cons.prems(1) live de] rest] show ?thesis .
  qed
qed

section \<open>The example system\<close>

lemma rev_upt_last: "0 < n \<Longrightarrow> rev [0..<n] = (n - 1) # rev [0..<n - 1]"
  by (cases n) simp_all

lemma init_pool_chain:
  "free_chain (sessions (init_free_list 0 zero_global)) (free (init_free_list 0 zero_global))
     (rev [0..<MAX_SESSIONS])"
proof -
  have "free_chain (sessions zero_global) (free zero_global) []"
    by (simp add: zero_global_def)
  from init_free_list_chain[OF this, of 0] show ?thesis by simp
qed

lemma init_pool_head:
  "free (init_free_list 0 zero_global) = Some 2047 \<and>
   next_entry (sessions (init_free_list 0 zero_global) 2047) = Some 2046"
proof -
  have "rev [0..<MAX_SESSIONS] = 2047 # 2046 # rev [0..<2046]"
    by (simp add: MAX_SESSIONS_def rev_upt_last[of 2048] rev_upt_last[of 2047])
  with init_pool_chain show ?thesis by simp
qed

lemma init_pool_slot:
  "sessions (init_free_list 0 zero_global) i =
     zero_session\<lparr>next_entry := next_entry (sessions (init_free_list 0 zero_global) i)\<rparr>"
proof -
  have "(sessions (init_free_list 0 zero_global) i)
          \<lparr>next_entry := next_entry (sessions (init_free_list 0 zero_global) i)\<rparr> =
        (sessions zero_global i)
          \<lparr>next_entry := next_entry (sessions (init_free_list 0 zero_global) i)\<rparr>"
    by (rule init_free_list_slots)
  then show ?thesis by (simp add: zero_global_def)
qed

lemma example_init_devs:
  assumes "enabled_crypto_devs G = 0" and "session_mempool G = (\<lambda>_. False)"
    and "enabled_crypto_dev_ids G = (\<lambda>_. 0)" and "enabled_crypto_dev_nb_qpairs G = (\<lambda>_. 0)"
  shows "init_devs example_platform example_init_env (Suc (Suc 0)) G [] =
           (0,
            G\<lparr>enabled_crypto_devs := 2,
              enabled_crypto_dev_ids := (\<lambda>_. 0)(0 := 1, 1 := 0),
              enabled_crypto_dev_nb_qpairs := (\<lambda>_. 0)(0 := 4, 1 := 1),
              session_mempool := (\<lambda>_. False)(0 := True)\<rparr>,
            [(1, 4), (0, 1)])"
  using assms
  by (simp add: example_platform_def example_init_env_def Let_def
      queue_pair_setup_loop.simps)

lemma example_init:
  "odp_crypto_init_global example_platform example_init_env =
     \<lparr>init_rc = 0,
      init_global =
        Some ((init_free_list 0 zero_global)
                \<lparr>enabled_crypto_devs := 2,
                 enabled_crypto_dev_ids := (\<lambda>_. 0)(0 := 1, 1 := 0),
                 enabled_crypto_dev_nb_qpairs := (\<lambda>_. 0)(0 := 4, 1 := 1),
                 is_crypto_dev_initialized := 1,
                 crypto_op_pool := True,
                 session_mempool := (\<lambda>_. False)(0 := True)\<rparr>),
      init_configured = [(1, 4), (0, 1)]\<rparr>"
proof -
  define G where "G = (init_free_list 0 zero_global)\<lparr>enabled_crypto_devs := 0\<rparr>"
  have u: "unat (rte_cryptodev_count example_platform) = Suc (Suc 0)"
    by (simp add: example_platform_def)
  have nz: "rte_cryptodev_count example_platform \<noteq> 0"
    by (simp add: example_platform_def)
  have G: "enabled_crypto_devs G = 0" "session_mempool G = (\<lambda>_. False)"
    "enabled_crypto_dev_ids G = (\<lambda>_. 0)" "enabled_crypto_dev_nb_qpairs G = (\<lambda>_. 0)"
    "is_crypto_dev_initialized G = 0"
    by (simp_all add: G_def init_free_list_fields zero_global_def)
  have env: "shm_reserve_ok example_init_env" "op_pool_create_ok example_init_env"
    by (simp_all add: example_init_env_def)
  have devs: "init_devs example_platform example_init_env
                (unat (rte_cryptodev_count example_platform)) G [] =
              (0,
               G\<lparr>enabled_crypto_devs := 2,
                 enabled_crypto_dev_ids := (\<lambda>_. 0)(0 := 1, 1 := 0),
                 enabled_crypto_dev_nb_qpairs := (\<lambda>_. 0)(0 := 4, 1 := 1),
                 session_mempool := (\<lambda>_. False)(0 := True)\<rparr>,
               [(1, 4), (0, 1)])"
    unfolding u by (rule example_init_devs[OF G(1-4)])
  show ?thesis
    unfolding odp_crypto_init_global_def Let_def G_def[symmetric] devs
    by (simp add: G nz env) (simp add: G_def)
qed

lemma example_global_eq:
  "example_global =
     (init_free_list 0 zero_global)
       \<lparr>enabled_crypto_devs := 2,
        enabled_crypto_dev_ids := (\<lambda>_. 0)(0 := 1, 1 := 0),
        enabled_crypto_dev_nb_qpairs := (\<lambda>_. 0)(0 := 4, 1 := 1),
        is_crypto_dev_initialized := 1,
        crypto_op_pool := True,
        session_mempool := (\<lambda>_. False)(0 := True)\<rparr>"
  by (simp add: example_global_def example_init)

lemma example_global_fields:
  "enabled_crypto_devs example_global = 2"
  "enabled_crypto_dev_ids example_global 0 = 1"
  "enabled_crypto_dev_ids example_global (Suc 0) = 0"
  "enabled_crypto_dev_nb_qpairs example_global 0 = 4"
  "enabled_crypto_dev_nb_qpairs example_global (Suc 0) = 1"
  "free example_global = Some 2047"
  "next_entry (sessions example_global 2047) = Some 2046"
  by (simp_all add: example_global_eq init_pool_head)

lemma example_global_slot:
  "sessions example_global 2047 = zero_session\<lparr>next_entry := Some 2046\<rparr>"
proof -
  have "sessions example_global 2047 = sessions (init_free_list 0 zero_global) 2047"
    by (simp add: example_global_eq)
  also have "\<dots> = zero_session\<lparr>next_entry := Some 2046\<rparr>"
    by (subst init_pool_slot) (simp add: init_pool_head)
  finally show ?thesis .
qed

lemma example_fill_any:
  assumes "malloc_cipher_key env" and "malloc_auth_key env"
  shows "crypto_fill_cipher_xform env example_param =
     Some \<lparr>cipher_algo = RTE_CRYPTO_CIPHER_AES_CBC, cipher_key_data = replicate 16 0,
           cipher_key_length = 16, cipher_iv_length = 16,
           cipher_op = RTE_CRYPTO_CIPHER_OP_ENCRYPT\<rparr>"
    and "crypto_fill_auth_xform example_platform env example_param =
     Some \<lparr>auth_algo = RTE_CRYPTO_AUTH_SHA256_HMAC, auth_digest_length = 32,
           auth_key_data = replicate 32 0, auth_key_length = 32, auth_iv_length = 0,
           auth_op = RTE_CRYPTO_AUTH_OP_GENERATE\<rparr>"
  using assms
  by (simp_all add: crypto_fill_cipher_xform_def crypto_fill_auth_xform_def
      example_param_def example_platform_def crypto_init_key_def)

lemma example_fill:
  "crypto_fill_cipher_xform example_create_env example_param =
     Some \<lparr>cipher_algo = RTE_CRYPTO_CIPHER_AES_CBC, cipher_key_data = replicate 16 0,
           cipher_key_length = 16, cipher_iv_length = 16,
           cipher_op = RTE_CRYPTO_CIPHER_OP_ENCRYPT\<rparr>"
  "crypto_fill_auth_xform example_platform example_create_env example_param =
     Some \<lparr>auth_algo = RTE_CRYPTO_AUTH_SHA256_HMAC, auth_digest_length = 32,
           auth_key_data = replicate 32 0, auth_key_length = 32, auth_iv_length = 0,
           auth_op = RTE_CRYPTO_AUTH_OP_GENERATE\<rparr>"
  by (rule example_fill_any; simp add: example_create_env_def)+

lemma example_select:
  "get_crypto_dev example_platform
     (example_global\<lparr>free := f, sessions := ses\<rparr>)
     \<lparr>cipher_algo = RTE_CRYPTO_CIPHER_AES_CBC, cipher_key_data = replicate 16 0,
           cipher_key_length = 16, cipher_iv_length = 16,
           cipher_op = RTE_CRYPTO_CIPHER_OP_ENCRYPT\<rparr>
     \<lparr>auth_algo = RTE_CRYPTO_AUTH_SHA256_HMAC, auth_digest_length = 32,
           auth_key_data = replicate 32 0, auth_key_length = 32, auth_iv_length = 0,
           auth_op = RTE_CRYPTO_AUTH_OP_GENERATE\<rparr> = Some (Some 0)"
  by (simp add: get_crypto_dev_def get_crypto_dev_loop.simps example_global_fields
      example_platform_def example_caps0_def example_caps1_def crypto_dev_check_def
      cipher_dev_check_def auth_dev_check_def check_auth_def is_valid_size_def
      is_valid_size_loop.simps MAX_IV_LENGTH_def)

lemma example_create:
  "odp_crypto_session_create example_platform example_create_env example_global example_param =
     Some (example_global\<lparr>free := Some 2046,
                          sessions := (sessions example_global)(2047 := example_session)\<rparr>,
           \<lparr>create_rc = 0, session_out = SESSION 2047,
            status = ODP_CRYPTO_SES_CREATE_ERR_NONE,
            init_chain =
              Some (0, [XFORM_CIPHER
                          \<lparr>cipher_algo = RTE_CRYPTO_CIPHER_AES_CBC,
                           cipher_key_data = replicate 16 0,
                           cipher_key_length = 16, cipher_iv_length = 16,
                           cipher_op = RTE_CRYPTO_CIPHER_OP_ENCRYPT\<rparr>,
                        XFORM_AUTH
                          \<lparr>auth_algo = RTE_CRYPTO_AUTH_SHA256_HMAC, auth_digest_length = 32,
                           auth_key_data = replicate 32 0, auth_key_length = 32,
                           auth_iv_length = 0,
                           auth_op = RTE_CRYPTO_AUTH_OP_GENERATE\<rparr>]),
            create_fault = None\<rparr>)"
proof -
  have nz: "rte_cryptodev_count example_platform \<noteq> 0" by (simp add: example_platform_def)
  have al: "alloc_session example_global =
              (example_global\<lparr>free := Some 2046,
                 sessions := (sessions example_global)
                   (2047 := zero_session\<lparr>next_entry := None\<rparr>)\<rparr>, Some 2047)"
    by (simp add: alloc_session_some[OF example_global_fields(6)] example_global_fields
        example_global_slot)
  have prm: "\<not> cipher_is_aead (cipher_alg example_param)"
    "op example_param = ODP_CRYPTO_OP_ENCODE" "auth_cipher_text example_param"
    "cipher_alg example_param \<noteq> ODP_CIPHER_ALG_NULL"
    "auth_alg example_param \<noteq> ODP_AUTH_ALG_NULL"
    "cipher_iv example_param = \<lparr>iv_data = None, iv_length = 16\<rparr>"
    "auth_iv example_param = \<lparr>iv_data = None, iv_length = 0\<rparr>"
    by (simp_all add: example_param_def)
  have env: "sym_session_create example_create_env = Some 1"
    "sym_session_init example_create_env = 0"
    by (simp_all add: example_create_env_def)
  show ?thesis
    unfolding odp_crypto_session_create_def al
    by (simp add: nz Let_def prm example_fill example_select session_create_setup_def env
        derive_first_xform_def example_global_fields cache_iv_def iv_overrun_def
        example_session_def zero_session_def)
qed


lemma example_session_global_eq:
  "example_session_global =
     example_global\<lparr>free := Some 2046,
                    sessions := (sessions example_global)(2047 := example_session)\<rparr>"
  by (simp add: example_session_global_def example_create)

lemma example_session_chain:
  "free_chain (sessions example_session_global) (free example_session_global)
     (rev [0..<2047])"
proof -
  have "rev [0..<MAX_SESSIONS] = 2047 # rev [0..<2047]"
    by (simp add: MAX_SESSIONS_def rev_upt_last[of 2048])
  with init_pool_chain
  have "free_chain (sessions (init_free_list 0 zero_global)) (Some 2046) (rev [0..<2047])"
    by (simp add: init_pool_head)
  moreover have "2047 \<notin> set (rev [0..<2047])" by simp
  ultimately show ?thesis
    by (simp add: example_session_global_eq example_global_eq free_chain_update_other)
qed

lemma example_session_free_length:
  "free_list_length example_session_global = Some 2047"
  using count_free_chain[OF example_session_chain, of 0]
  by (simp add: free_list_length_def)

lemma example_free_length: "free_list_length example_global = Some 2048"
proof -
  have "free_chain (sessions example_global) (free example_global) (rev [0..<MAX_SESSIONS])"
    using init_pool_chain by (simp add: example_global_eq)
  from count_free_chain[OF this, of 0] show ?thesis
    by (simp add: free_list_length_def MAX_SESSIONS_def)
qed

section \<open>Claims on session creation and destruction\<close>

text \<open>
  C7. A failing \<^verbatim>\<open>odp_crypto_session_create\<close> that allocated a slot (there is a device, and
  \<open>s\<close> is the head of the free list) writes the invalid handle to the output, leaves the
  slot all-zero and back at the head of the free list with its former link, changes no
  other slot, and leaves the length of the free list what it was before the call.
\<close>

theorem failed_create_rolls_back:
  assumes run: "odp_crypto_session_create plat env g param = Some (g', r)"
    and rc: "create_rc r \<noteq> 0"
    and nz: "rte_cryptodev_count plat \<noteq> 0"
    and hd: "free g = Some s"
  shows "session_out r = ODP_CRYPTO_SESSION_INVALID \<and>
         sessions g' s = zero_session\<lparr>next_entry := next_entry (sessions g s)\<rparr> \<and>
         free g' = Some s \<and>
         (\<forall>i. i \<noteq> s \<longrightarrow> sessions g' i = sessions g i) \<and>
         free_list_length g' = free_list_length g"
proof -
  from create_failure[OF run rc] nz hd
  have out: "session_out r = ODP_CRYPTO_SESSION_INVALID" and g': "g' = rolled_back g s"
    by simp_all
  have len: "free_list_length g' = free_list_length g"
    unfolding free_list_length_def using create_failure_links[OF run rc]
    by (simp add: count_free_next_only)
  from out g' hd len show ?thesis by (simp add: rolled_back_def)
qed

lemma example_create_init_fails:
  "odp_crypto_session_create example_platform
     (example_create_env\<lparr>sym_session_init := - 1\<rparr>) example_global example_param =
   Some (rolled_back example_global 2047,
         \<lparr>create_rc = - 1, session_out = ODP_CRYPTO_SESSION_INVALID,
          status = ODP_CRYPTO_SES_CREATE_ERR_ENOMEM,
          init_chain =
            Some (0, [XFORM_CIPHER
                        \<lparr>cipher_algo = RTE_CRYPTO_CIPHER_AES_CBC,
                         cipher_key_data = replicate 16 0,
                         cipher_key_length = 16, cipher_iv_length = 16,
                         cipher_op = RTE_CRYPTO_CIPHER_OP_ENCRYPT\<rparr>,
                      XFORM_AUTH
                        \<lparr>auth_algo = RTE_CRYPTO_AUTH_SHA256_HMAC, auth_digest_length = 32,
                         auth_key_data = replicate 32 0, auth_key_length = 32,
                         auth_iv_length = 0,
                         auth_op = RTE_CRYPTO_AUTH_OP_GENERATE\<rparr>]),
          create_fault = None\<rparr>)"
proof -
  have nz: "rte_cryptodev_count example_platform \<noteq> 0" by (simp add: example_platform_def)
  have al: "alloc_session example_global =
              (example_global\<lparr>free := next_entry (sessions example_global 2047),
                 sessions := (sessions example_global)
                   (2047 := (sessions example_global 2047)\<lparr>next_entry := None\<rparr>)\<rparr>, Some 2047)"
    by (rule alloc_session_some[OF example_global_fields(6)])
  have prm: "\<not> cipher_is_aead (cipher_alg example_param)"
    "op example_param = ODP_CRYPTO_OP_ENCODE" "auth_cipher_text example_param"
    "cipher_alg example_param \<noteq> ODP_CIPHER_ALG_NULL"
    "auth_alg example_param \<noteq> ODP_AUTH_ALG_NULL"
    by (simp_all add: example_param_def)
  have m: "malloc_cipher_key (example_create_env\<lparr>sym_session_init := - 1\<rparr>)"
    "malloc_auth_key (example_create_env\<lparr>sym_session_init := - 1\<rparr>)"
    by (simp_all add: example_create_env_def)
  note fill = example_fill_any[OF m]
  have env: "sym_session_create (example_create_env\<lparr>sym_session_init := - 1\<rparr>) = Some 1"
    by (simp add: example_create_env_def)
  show ?thesis
    unfolding odp_crypto_session_create_def al
    by (simp add: nz Let_def prm fill example_select session_create_setup_def env
        derive_first_xform_def create_err_after_alloc[OF example_global_fields(6)])
qed

theorem failed_create_rolls_back_witness:
  "odp_crypto_session_create example_platform
     (example_create_env\<lparr>sym_session_init := - 1\<rparr>) example_global example_param \<noteq> None \<and>
   create_rc (snd (the (odp_crypto_session_create example_platform
     (example_create_env\<lparr>sym_session_init := - 1\<rparr>) example_global example_param))) = - 1 \<and>
   rte_cryptodev_count example_platform = 2 \<and>
   free example_global = Some 2047 \<and>
   session_out (snd (the (odp_crypto_session_create example_platform
     (example_create_env\<lparr>sym_session_init := - 1\<rparr>) example_global example_param))) =
     ODP_CRYPTO_SESSION_INVALID \<and>
   sessions (rolled_back example_global 2047) 2047 = zero_session\<lparr>next_entry := Some 2046\<rparr> \<and>
   free (rolled_back example_global 2047) = Some 2047 \<and>
   free_list_length (rolled_back example_global 2047) = Some 2048"
proof -
  have nz: "rte_cryptodev_count example_platform \<noteq> 0" by (simp add: example_platform_def)
  have rc: "create_rc \<lparr>create_rc = - 1, session_out = ODP_CRYPTO_SESSION_INVALID,
          status = ODP_CRYPTO_SES_CREATE_ERR_ENOMEM,
          init_chain =
            Some (0 :: 8 word, [XFORM_CIPHER
                        \<lparr>cipher_algo = RTE_CRYPTO_CIPHER_AES_CBC,
                         cipher_key_data = replicate 16 0,
                         cipher_key_length = 16, cipher_iv_length = 16,
                         cipher_op = RTE_CRYPTO_CIPHER_OP_ENCRYPT\<rparr>,
                      XFORM_AUTH
                        \<lparr>auth_algo = RTE_CRYPTO_AUTH_SHA256_HMAC, auth_digest_length = 32,
                         auth_key_data = replicate 32 0, auth_key_length = 32,
                         auth_iv_length = 0,
                         auth_op = RTE_CRYPTO_AUTH_OP_GENERATE\<rparr>]),
          create_fault = None\<rparr> \<noteq> 0" by simp
  have cnt: "rte_cryptodev_count example_platform = 2" by (simp add: example_platform_def)
  from failed_create_rolls_back[OF example_create_init_fails rc nz example_global_fields(6)]
  show ?thesis
    by (simp add: example_create_init_fails example_global_fields example_free_length cnt)
qed



text \<open>
  C1 as stated does not hold: on the example system, with the session in slot 2047,
  a destruction during which \<^verbatim>\<open>rte_cryptodev_sym_session_clear\<close> fails returns \<open>-1\<close> and
  leaves the state as it was. The slot still holds the session and the free list still has
  2047 entries.
\<close>

theorem failed_destroy_keeps_slot:
  "odp_crypto_session_destroy \<lparr>sym_session_clear = - 1, sym_session_free = 0\<rparr>
     example_session_global (SESSION 2047) = Inr (example_session_global, - 1) \<and>
   sessions example_session_global 2047 = example_session \<and>
   example_session \<noteq> zero_session \<and>
   free_list_length example_session_global = Some 2047"
proof -
  have "odp_crypto_session_destroy \<lparr>sym_session_clear = - 1, sym_session_free = 0\<rparr>
          example_session_global (SESSION 2047) = Inr (example_session_global, - 1)"
    by (rule destroy_failure) (simp_all add: MAX_SESSIONS_def)
  moreover have "example_session \<noteq> zero_session"
    by (simp add: example_session_def zero_session_def)
  ultimately show ?thesis
    by (simp add: example_session_free_length) (simp add: example_session_global_eq)
qed

text \<open>
  C1, amended. Let \<open>xs\<close> be the free list before a destruction of the session in a slot
  \<open>s\<close> that is not on it. When the accelerator-side clear or free call fails, the call
  returns \<open>-1\<close> and the state is unchanged: the slot is neither zeroed nor released, and
  the free list keeps its length. When both calls succeed, the call returns \<open>0\<close>, the slot
  is all-zero and is the new head of the free list, linked to the former head, and the
  free list is one longer.
\<close>

theorem destroy_releases_only_on_success:
  assumes run: "odp_crypto_session_destroy env g (SESSION s) = Inr (g', rc)"
    and chain: "free_chain (sessions g) (free g) xs"
    and notin: "s \<notin> set xs"
  shows "(sym_session_clear env < 0 \<or> sym_session_free env < 0 \<longrightarrow>
            rc = - 1 \<and> g' = g \<and> free_list_length g' = Some (int (length xs))) \<and>
         (\<not> (sym_session_clear env < 0 \<or> sym_session_free env < 0) \<longrightarrow>
            rc = 0 \<and> sessions g' s = zero_session\<lparr>next_entry := free g\<rparr> \<and>
            free g' = Some s \<and> free_chain (sessions g') (free g') (s # xs) \<and>
            free_list_length g' = Some (int (length xs) + 1))"
proof (cases "sym_session_clear env < 0 \<or> sym_session_free env < 0")
  case True
  from destroy_failure[OF True destroy_in_range[OF run], of g] run
  have "g' = g" and "rc = - 1" by simp_all
  moreover have "free_list_length g = Some (int (length xs))"
    using count_free_chain[OF chain, of 0] by (simp add: free_list_length_def)
  ultimately show ?thesis using True by simp
next
  case False
  from destroy_success[OF False destroy_in_range[OF run], of g] run
  have g': "g' = g\<lparr>sessions := (sessions g)(s := zero_session\<lparr>next_entry := free g\<rparr>),
                      free := Some s\<rparr>" and rc: "rc = 0" by simp_all
  have ch: "free_chain (sessions g') (free g') (s # xs)"
    unfolding g' by (simp add: free_chain_update_other[OF notin] chain)
  have "free_list_length g' = Some (int (length xs) + 1)"
    using count_free_chain[OF ch, of 0] by (simp add: free_list_length_def)
  with ch rc False show ?thesis by (simp add: g')
qed

theorem destroy_releases_only_on_success_witness:
  "odp_crypto_session_destroy \<lparr>sym_session_clear = 0, sym_session_free = - 1\<rparr>
     example_session_global (SESSION 2047) = Inr (example_session_global, - 1) \<and>
   free_chain (sessions example_session_global) (free example_session_global)
     (rev [0..<2047]) \<and>
   2047 \<notin> set (rev [0..<2047]) \<and>
   free_list_length example_session_global = Some 2047 \<and>
   odp_crypto_session_destroy example_destroy_env example_session_global (SESSION 2047) =
     Inr (example_session_global
            \<lparr>sessions := (sessions example_session_global)
               (2047 := zero_session\<lparr>next_entry := Some 2046\<rparr>),
             free := Some 2047\<rparr>, 0) \<and>
   free_list_length
     (example_session_global
        \<lparr>sessions := (sessions example_session_global)
           (2047 := zero_session\<lparr>next_entry := Some 2046\<rparr>),
         free := Some 2047\<rparr>) = Some 2048"
proof -
  have f: "odp_crypto_session_destroy \<lparr>sym_session_clear = 0, sym_session_free = - 1\<rparr>
             example_session_global (SESSION 2047) = Inr (example_session_global, - 1)"
    by (rule destroy_failure) (simp_all add: MAX_SESSIONS_def)
  have hd: "free example_session_global = Some 2046"
    by (simp add: example_session_global_eq)
  have ok: "odp_crypto_session_destroy example_destroy_env example_session_global
              (SESSION 2047) =
            Inr (example_session_global
                   \<lparr>sessions := (sessions example_session_global)
                      (2047 := zero_session\<lparr>next_entry := Some 2046\<rparr>),
                    free := Some 2047\<rparr>, 0)"
    by (subst destroy_success) (simp_all add: example_destroy_env_def MAX_SESSIONS_def hd)
  have notin: "2047 \<notin> set (rev [0..<2047])" by simp
  have e: "\<not> (sym_session_clear example_destroy_env < 0 \<or>
               sym_session_free example_destroy_env < 0)"
    by (simp add: example_destroy_env_def)
  from destroy_releases_only_on_success[OF f example_session_chain notin]
       destroy_releases_only_on_success[OF ok example_session_chain notin] e
  show ?thesis
    unfolding f ok by (simp add: example_session_chain[unfolded hd] hd)
qed

text \<open>
  C3. The count cached in a session is claimed to be the number of queue pairs configured
  on the device of the session. On the example system device 0 was configured with one
  queue pair and device 1 with four; the session is placed on device 0 and caches four.
\<close>

theorem cached_qpairs_of_other_device:
  "init_configured (odp_crypto_init_global example_platform example_init_env) =
     [(1, 4), (0, 1)] \<and>
   init_global (odp_crypto_init_global example_platform example_init_env) =
     Some example_global \<and>
   odp_crypto_session_create example_platform example_create_env example_global
     example_param \<noteq> None \<and>
   session_out (snd (the (odp_crypto_session_create example_platform example_create_env
                            example_global example_param))) = SESSION 2047 \<and>
   cdev_id (sessions example_session_global 2047) = 0 \<and>
   cdev_nb_qpairs (sessions example_session_global 2047) = 4"
proof -
  have init: "init_global (odp_crypto_init_global example_platform example_init_env) =
                Some example_global"
    by (simp add: example_init example_global_eq)
  have cfg: "init_configured (odp_crypto_init_global example_platform example_init_env) =
               [(1, 4), (0, 1)]"
    by (simp add: example_init)
  have ses: "sessions example_session_global 2047 = example_session"
    by (simp add: example_session_global_eq)
  show ?thesis
    unfolding init cfg example_create ses by (simp add: example_session_def)
qed

text \<open>
  What the code caches: the entry of \<^verbatim>\<open>enabled_crypto_dev_nb_qpairs\<close> at the index given
  by the device id, while initialisation fills that array by position in the enabled list.
\<close>

lemma cached_qpairs_indexed_by_device_id:
  assumes run: "odp_crypto_session_create plat env g param = Some (g', r)"
    and out: "session_out r = SESSION s"
  shows "cdev_nb_qpairs (sessions g' s) =
           enabled_crypto_dev_nb_qpairs g (unat (cdev_id (sessions g' s)))"
proof -
  have rc: "create_rc r = 0"
  proof (rule ccontr)
    assume "create_rc r \<noteq> 0"
    from create_failure[OF run this] out show False by simp
  qed
  from create_success[OF run rc] out have nz: "rte_cryptodev_count plat \<noteq> 0"
    and hd: "free g = Some s" by auto
  from run nz hd rc show ?thesis
    by (auto simp: odp_crypto_session_create_def alloc_session_def Let_def
        create_err_after_alloc session_create_setup_def
        split: if_splits option.splits)
qed

text \<open>
  C9 as stated does not hold: a destroy whose accelerator call fails does not return the
  slot. On the example system, after one create and one destroy of the created session,
  the session is still in use and the free list has 2047 of the 2048 slots.
\<close>

theorem failed_destroy_leaves_session_in_use:
  "run_calls example_platform (example_global, {})
     [Create example_param example_create_env,
      Destroy (SESSION 2047) \<lparr>sym_session_clear = - 1, sym_session_free = 0\<rparr>] =
     Some (example_session_global, {2047}) \<and>
   free_list_length example_session_global = Some 2047 \<and>
   MAX_SESSIONS = 2048"
proof -
  have d: "odp_crypto_session_destroy \<lparr>sym_session_clear = - 1, sym_session_free = 0\<rparr>
          example_session_global (SESSION 2047) = Inr (example_session_global, - 1)"
    by (rule destroy_failure) (simp_all add: MAX_SESSIONS_def)
  show ?thesis
    by (simp add: example_create example_session_global_eq[symmetric] d
        example_session_free_length MAX_SESSIONS_def)
qed

text \<open>
  A creation-time IV longer than the 16-byte array of the slot is copied in full when no
  check of the selector stands in the way: the parameters below name AES-CBC without
  authentication and bring a 30-byte auth IV. The create succeeds on device 1 and its copy
  of the auth IV runs past the array.
\<close>

lemma long_iv_create_overruns:
  "odp_crypto_session_create example_platform example_create_env example_global
     example_long_iv_param \<noteq> None \<and>
   create_rc (snd (the (odp_crypto_session_create example_platform example_create_env
                          example_global example_long_iv_param))) = 0 \<and>
   create_fault (snd (the (odp_crypto_session_create example_platform example_create_env
                             example_global example_long_iv_param))) = Some Buffer_overrun \<and>
   run_calls example_platform (example_global, {})
     [Create example_long_iv_param example_create_env] = None"
proof -
  have nz: "rte_cryptodev_count example_platform \<noteq> 0" by (simp add: example_platform_def)
  have al: "alloc_session example_global =
              (example_global\<lparr>free := Some 2046,
                 sessions := (sessions example_global)
                   (2047 := zero_session\<lparr>next_entry := None\<rparr>)\<rparr>, Some 2047)"
    by (simp add: alloc_session_some[OF example_global_fields(6)] example_global_fields
        example_global_slot)
  have prm: "\<not> cipher_is_aead (cipher_alg example_long_iv_param)"
    "auth_iv example_long_iv_param = \<lparr>iv_data = Some (replicate 30 0), iv_length = 30\<rparr>"
    by (simp_all add: example_long_iv_param_def)
  have fill: "crypto_fill_cipher_xform example_create_env example_long_iv_param =
     Some \<lparr>cipher_algo = RTE_CRYPTO_CIPHER_AES_CBC, cipher_key_data = replicate 16 0,
           cipher_key_length = 16, cipher_iv_length = 16,
           cipher_op = RTE_CRYPTO_CIPHER_OP_ENCRYPT\<rparr>"
    "crypto_fill_auth_xform example_platform example_create_env example_long_iv_param =
     Some \<lparr>auth_algo = RTE_CRYPTO_AUTH_NULL, auth_digest_length = 0,
           auth_key_data = [], auth_key_length = 0, auth_iv_length = 30,
           auth_op = RTE_CRYPTO_AUTH_OP_GENERATE\<rparr>"
    by (simp_all add: crypto_fill_cipher_xform_def crypto_fill_auth_xform_def
        example_long_iv_param_def example_platform_def crypto_init_key_def
        example_create_env_def)
  have sel: "get_crypto_dev example_platform
     (example_global\<lparr>free := f, sessions := ses\<rparr>)
     \<lparr>cipher_algo = RTE_CRYPTO_CIPHER_AES_CBC, cipher_key_data = replicate 16 0,
           cipher_key_length = 16, cipher_iv_length = 16,
           cipher_op = RTE_CRYPTO_CIPHER_OP_ENCRYPT\<rparr>
     \<lparr>auth_algo = RTE_CRYPTO_AUTH_NULL, auth_digest_length = 0,
           auth_key_data = [], auth_key_length = 0, auth_iv_length = 30,
           auth_op = RTE_CRYPTO_AUTH_OP_GENERATE\<rparr> = Some (Some 1)" for f ses
    by (simp add: get_crypto_dev_def get_crypto_dev_loop.simps example_global_fields
        example_platform_def example_caps0_def example_caps1_def crypto_dev_check_def
        cipher_dev_check_def auth_dev_check_def check_auth_def is_valid_size_def
        is_valid_size_loop.simps MAX_IV_LENGTH_def)
  have env: "sym_session_create example_create_env = Some 1"
    "sym_session_init example_create_env = 0"
    by (simp_all add: example_create_env_def)
  have ov: "iv_overrun \<lparr>iv_data = Some (replicate 30 0), iv_length = 30\<rparr>"
    by (simp add: iv_overrun_def MAX_IV_LENGTH_def)
  obtain g' r where cr: "odp_crypto_session_create example_platform example_create_env
                           example_global example_long_iv_param = Some (g', r)"
    and r: "create_rc r = 0" "create_fault r = Some Buffer_overrun"
    unfolding odp_crypto_session_create_def al
    by (simp add: nz Let_def prm fill sel session_create_setup_def env ov)
  show ?thesis by (simp add: cr r)
qed

text \<open>
  C9, amended. Start from the state an initialisation leaves and run any sequence of
  create and destroy calls, each destroy on a session in use, in which no create copies a
  creation-time IV past the 16-byte array of its slot (such a copy overwrites the memory
  behind the array; what the pool is after it is left open). A session is in use from the
  create that returned it until a destroy of it returns 0; a destroy that fails leaves it
  in use. After the sequence the free list ends, its length plus the number of sessions
  in use is \<^verbatim>\<open>MAX_SESSIONS\<close>, and when no session is in use the length is
  \<^verbatim>\<open>MAX_SESSIONS\<close>.
\<close>

theorem pool_conservation:
  assumes init: "init_global (odp_crypto_init_global plat ienv) = Some g0"
    and run: "run_calls plat (g0, {}) calls = Some (g, in_use)"
  shows "free_list_length g = Some (int MAX_SESSIONS - int (card in_use)) \<and>
         card in_use \<le> MAX_SESSIONS \<and>
         (in_use = {} \<longrightarrow> free_list_length g = Some (int MAX_SESSIONS))"
proof -
  from pool_conserved_run[OF pool_conserved_init[OF init] run]
  have "pool_conserved g in_use" .
  from pool_conserved_length[OF this] obtain n where
    "free_list_length g = Some (int n)" and "card in_use + n = MAX_SESSIONS" by blast
  then show ?thesis by auto
qed

theorem pool_conservation_witness:
  "init_global (odp_crypto_init_global example_platform example_init_env) =
     Some example_global \<and>
   map_option snd
     (run_calls example_platform (example_global, {})
        [Create example_param example_create_env,
         Destroy (SESSION 2047) example_destroy_env]) = Some {} \<and>
   free_list_length
     (fst (the (run_calls example_platform (example_global, {})
        [Create example_param example_create_env,
         Destroy (SESSION 2047) example_destroy_env]))) = Some 2048"
proof -
  have init: "init_global (odp_crypto_init_global example_platform example_init_env) =
                Some example_global"
    by (simp add: example_init example_global_eq)
  have hd: "free example_session_global = Some 2046"
    by (simp add: example_session_global_eq)
  have ok: "odp_crypto_session_destroy example_destroy_env example_session_global
              (SESSION 2047) =
            Inr (example_session_global
                   \<lparr>sessions := (sessions example_session_global)
                      (2047 := zero_session\<lparr>next_entry := Some 2046\<rparr>),
                    free := Some 2047\<rparr>, 0)"
    by (subst destroy_success) (simp_all add: example_destroy_env_def MAX_SESSIONS_def hd)
  have run: "run_calls example_platform (example_global, {})
        [Create example_param example_create_env,
         Destroy (SESSION 2047) example_destroy_env] =
       Some (example_session_global
                   \<lparr>sessions := (sessions example_session_global)
                      (2047 := zero_session\<lparr>next_entry := Some 2046\<rparr>),
                    free := Some 2047\<rparr>, {})"
    by (simp add: example_create example_session_global_eq[symmetric] ok)
  from pool_conservation[OF init run] show ?thesis
    unfolding init run by (simp add: MAX_SESSIONS_def)
qed

section \<open>Claims on the device selector\<close>

text \<open>
  A supported length is found by the scan before the counter can wrap, so the size check
  accepts it whatever the range; and on a range that cannot wrap the check is right for
  every length. The wrap-around can thus only touch a length that the rule rejects.
\<close>

lemma is_valid_size_loop_hits:
  assumes "unat supp + k * unat (increment rg) = unat len" and "len \<le> max_r rg"
  shows "is_valid_size_loop len rg supp = Some 0"
  using assms
proof (induction k arbitrary: supp)
  case 0
  then have "supp = len" by (simp add: word_unat_eq_iff)
  with 0(2) show ?case by (subst is_valid_size_loop.simps) simp
next
  case (Suc k)
  have le: "unat supp + unat (increment rg) \<le> unat len" using Suc(2) by simp
  then have "unat supp \<le> unat len" by simp
  with Suc(3) have inr: "supp \<le> max_r rg" by (simp add: word_le_nat_alt)
  show ?case
  proof (cases "len = supp")
    case True
    with inr show ?thesis by (subst is_valid_size_loop.simps) simp
  next
    case False
    have "unat len < 2 ^ LENGTH(16)" by (rule unsigned_less)
    with le have "unat supp + unat (increment rg) < 2 ^ LENGTH(16)" by simp
    then have sum: "unat (supp + increment rg) = unat supp + unat (increment rg)"
      by (simp only: unat_add_lem[THEN iffD1])
    have "unat (supp + increment rg) + k * unat (increment rg) = unat len"
      using Suc(2) sum by simp
    from Suc(1)[OF this Suc(3)] inr False show ?thesis
      by (subst is_valid_size_loop.simps) simp
  qed
qed

lemma is_valid_size_supported:
  assumes "size_supported len rg"
  shows "is_valid_size len rg = Some 0"
proof -
  from assms have ge: "min_r rg \<le> len" and le: "len \<le> max_r rg"
    and grid: "len = min_r rg \<or>
               (0 < increment rg \<and> (unat len - unat (min_r rg)) mod unat (increment rg) = 0)"
    by (simp_all add: size_supported_def)
  from ge have ge': "unat (min_r rg) \<le> unat len" by (simp add: word_le_nat_alt)
  have "\<exists>k. unat (min_r rg) + k * unat (increment rg) = unat len"
  proof (cases "len = min_r rg")
    case True
    then have "unat (min_r rg) + 0 * unat (increment rg) = unat len" by simp
    then show ?thesis by blast
  next
    case False
    with grid have "(unat len - unat (min_r rg)) mod unat (increment rg) = 0" by simp
    then obtain k where "unat len - unat (min_r rg) = unat (increment rg) * k"
      by (auto simp: mod_eq_0_iff_dvd)
    with ge' have "unat (min_r rg) + k * unat (increment rg) = unat len"
      by (simp add: mult.commute)
    then show ?thesis by blast
  qed
  then obtain k where "unat (min_r rg) + k * unat (increment rg) = unat len" by blast
  from is_valid_size_loop_hits[OF this le]
  have loop: "is_valid_size_loop len rg (min_r rg) = Some 0" .
  have "\<not> len < min_r rg" using ge by simp
  moreover have "\<not> (min_r rg \<noteq> len \<and> increment rg = 0)" using grid by auto
  ultimately show ?thesis by (simp add: is_valid_size_def loop)
qed

lemma size_check_agrees_supported: "size_supported len rg \<Longrightarrow> size_check_agrees len rg"
  by (simp add: size_check_agrees_def is_valid_size_supported)

lemma size_check_agrees_no_wrap: "range_no_wrap rg \<Longrightarrow> size_check_agrees len rg"
  by (simp add: size_check_agrees_def is_valid_size_no_wrap)

lemma size_check_agrees_step_one:
  assumes "increment rg = 1"
  shows "size_check_agrees len rg"
proof (cases "size_supported len rg")
  case True
  then show ?thesis by (rule size_check_agrees_supported)
next
  case False
  show ?thesis
  proof (cases "unat (max_r rg) = 65535")
    case top: True
    show ?thesis
    proof (cases "len < min_r rg")
      case True
      with False show ?thesis by (simp add: size_check_agrees_def is_valid_size_def)
    next
      case ge: False
      have "unat len < 2 ^ LENGTH(16)" by (rule unsigned_less)
      with top have "len \<le> max_r rg" by (simp add: word_le_nat_alt)
      with ge assms have "size_supported len rg"
        by (simp add: size_supported_def not_less)
      with False show ?thesis by simp
    qed
  next
    case nt: False
    moreover have "unat (max_r rg) < 2 ^ LENGTH(16)" by (rule unsigned_less)
    ultimately have "unat (max_r rg) + 1 < 65536" by simp
    with assms have "range_no_wrap rg" by (simp add: range_no_wrap_def)
    then show ?thesis by (rule size_check_agrees_no_wrap)
  qed
qed

text \<open>The checks of one device, when its size checks agree with the rule.\<close>

lemma cipher_dev_check_agree:
  assumes "cipher_checks_agree caps cx"
  shows "cipher_dev_check caps cx = Some (cipher_accepted caps cx)"
proof (cases "find_cipher_cap caps (cipher_algo cx)")
  case None
  then show ?thesis by (simp add: cipher_dev_check_def cipher_accepted_def)
next
  case (Some r)
  obtain ks ivs where r: "r = (ks, ivs)" by (cases r)
  from assms Some r have k: "size_check_agrees (cipher_key_length cx) ks"
    and i: "size_supported (cipher_key_length cx) ks \<and>
            unat (cipher_iv_length cx) \<le> MAX_IV_LENGTH \<Longrightarrow>
            size_check_agrees (cipher_iv_length cx) ivs"
    by (simp_all add: cipher_checks_agree_def)
  show ?thesis
  proof (cases "size_supported (cipher_key_length cx) ks \<and>
                unat (cipher_iv_length cx) \<le> MAX_IV_LENGTH")
    case True
    with k i[OF True] Some r show ?thesis
      by (simp add: cipher_dev_check_def cipher_accepted_def size_check_agrees_def not_less)
  next
    case False
    with k Some r show ?thesis
      by (auto simp: cipher_dev_check_def cipher_accepted_def size_check_agrees_def not_less)
  qed
qed

lemma auth_dev_check_agree:
  assumes "auth_checks_agree caps ax"
  shows "auth_dev_check caps ax = Some (auth_accepted caps ax)"
proof (cases "find_auth_cap caps (auth_algo ax)")
  case None
  then show ?thesis by (simp add: auth_dev_check_def auth_accepted_def)
next
  case (Some r)
  obtain ks ds ivs where r: "r = (ks, ds, ivs)" by (cases r)
  from assms Some r have k: "size_check_agrees (auth_key_length ax) ks"
    and d: "size_supported (auth_key_length ax) ks \<Longrightarrow>
            size_check_agrees (auth_digest_length ax) ds"
    and i: "size_supported (auth_key_length ax) ks \<Longrightarrow>
            size_supported (auth_digest_length ax) ds \<and>
            unat (auth_iv_length ax) \<le> MAX_IV_LENGTH \<Longrightarrow>
            size_check_agrees (auth_iv_length ax) ivs"
    by (simp_all add: auth_checks_agree_def)
  show ?thesis
  proof (cases "size_supported (auth_key_length ax) ks")
    case False
    with k Some r show ?thesis
      by (simp add: auth_dev_check_def auth_accepted_def size_check_agrees_def)
  next
    case key: True
    show ?thesis
    proof (cases "size_supported (auth_digest_length ax) ds \<and>
                  unat (auth_iv_length ax) \<le> MAX_IV_LENGTH")
      case True
      with k d[OF key] i[OF key True] key Some r show ?thesis
        by (simp add: auth_dev_check_def auth_accepted_def size_check_agrees_def not_less)
    next
      case False
      with k d[OF key] key Some r show ?thesis
        by (auto simp: auth_dev_check_def auth_accepted_def size_check_agrees_def not_less)
    qed
  qed
qed

lemma aead_dev_check_agree:
  assumes "aead_checks_agree caps aead"
  shows "aead_dev_check caps aead = Some (aead_accepted caps aead)"
proof (cases "find_aead_cap caps (aead_algo aead)")
  case None
  then show ?thesis by (simp add: aead_dev_check_def aead_accepted_def)
next
  case (Some r)
  obtain ks ds ivs where r: "r = (ks, ds, ivs)" by (cases r)
  from assms Some r have k: "size_check_agrees (aead_key_length aead) ks"
    and i: "size_supported (aead_key_length aead) ks \<and>
            unat (aead_iv_length aead) \<le> MAX_IV_LENGTH \<Longrightarrow>
            size_check_agrees (aead_iv_length aead) ivs"
    and d: "size_supported (aead_key_length aead) ks \<and>
            unat (aead_iv_length aead) \<le> MAX_IV_LENGTH \<Longrightarrow>
            size_supported (aead_iv_length aead) ivs \<Longrightarrow>
            size_check_agrees (aead_digest_length aead) ds"
    by (simp_all add: aead_checks_agree_def)
  show ?thesis
  proof (cases "size_supported (aead_key_length aead) ks \<and>
                unat (aead_iv_length aead) \<le> MAX_IV_LENGTH")
    case False
    with k Some r show ?thesis
      by (auto simp: aead_dev_check_def aead_accepted_def size_check_agrees_def not_less)
  next
    case pre: True
    show ?thesis
    proof (cases "size_supported (aead_iv_length aead) ivs")
      case True
      with k i[OF pre] d[OF pre True] pre Some r show ?thesis
        by (simp add: aead_dev_check_def aead_accepted_def size_check_agrees_def not_less)
    next
      case False
      with k i[OF pre] pre Some r show ?thesis
        by (simp add: aead_dev_check_def aead_accepted_def size_check_agrees_def not_less)
    qed
  qed
qed

lemma crypto_dev_check_agree:
  assumes "dev_checks_agree caps cx ax"
  shows "crypto_dev_check caps cx ax = Some (dev_accepts caps cx ax)"
proof (cases "cipher_algo cx = RTE_CRYPTO_CIPHER_NULL")
  case True
  with assms have "auth_checks_agree caps ax" by (simp add: dev_checks_agree_def)
  from auth_dev_check_agree[OF this] True show ?thesis
    by (simp add: crypto_dev_check_def check_auth_def dev_accepts_def)
next
  case nn: False
  with assms have c: "cipher_checks_agree caps cx" by (simp add: dev_checks_agree_def)
  note cc = cipher_dev_check_agree[OF c]
  show ?thesis
  proof (cases "cipher_accepted caps cx")
    case False
    with cc nn show ?thesis by (simp add: crypto_dev_check_def dev_accepts_def)
  next
    case acc: True
    show ?thesis
    proof (cases "auth_algo ax = RTE_CRYPTO_AUTH_NULL")
      case True
      with cc nn acc show ?thesis
        by (simp add: crypto_dev_check_def check_auth_def dev_accepts_def)
    next
      case False
      with assms nn acc have "auth_checks_agree caps ax" by (simp add: dev_checks_agree_def)
      from auth_dev_check_agree[OF this] cc nn acc False show ?thesis
        by (simp add: crypto_dev_check_def check_auth_def dev_accepts_def)
    qed
  qed
qed

text \<open>
  The loops, from a position before which no device passed: only the devices up to the
  first one that passes are looked at.
\<close>

lemma get_crypto_dev_loop_first:
  assumes agree: "\<forall>i < unat (enabled_crypto_devs g).
                    (\<forall>j < i. \<not> dev_accepts (enabled_caps plat g j) cx ax) \<longrightarrow>
                    dev_checks_agree (enabled_caps plat g i) cx ax"
    and prior: "\<forall>j < idx. \<not> dev_accepts (enabled_caps plat g j) cx ax"
  shows "get_crypto_dev_loop plat g cx ax idx =
           Some (map_option (enabled_crypto_dev_ids g)
                   (find (\<lambda>i. dev_accepts (enabled_caps plat g i) cx ax)
                      [idx..<unat (enabled_crypto_devs g)]))"
  using prior
proof (induction "unat (enabled_crypto_devs g) - idx" arbitrary: idx)
  case 0
  then show ?case by (subst get_crypto_dev_loop.simps) simp
next
  case (Suc k)
  then have lt: "idx < unat (enabled_crypto_devs g)" by simp
  from Suc(2) have k: "k = unat (enabled_crypto_devs g) - (idx + 1)" by simp
  from agree lt Suc(3) have "dev_checks_agree (enabled_caps plat g idx) cx ax" by simp
  note chk = crypto_dev_check_agree[OF this, unfolded enabled_caps_def]
  show ?case
  proof (cases "dev_accepts (enabled_caps plat g idx) cx ax")
    case True
    with lt chk show ?thesis
      by (subst get_crypto_dev_loop.simps) (simp add: upt_conv_Cons enabled_caps_def)
  next
    case False
    with Suc(3) have "\<forall>j < idx + 1. \<not> dev_accepts (enabled_caps plat g j) cx ax"
      by (auto simp: less_Suc_eq)
    from Suc(1)[OF k this] lt chk False show ?thesis
      by (subst get_crypto_dev_loop.simps) (simp add: upt_conv_Cons enabled_caps_def)
  qed
qed

lemma get_crypto_aead_dev_loop_first:
  assumes agree: "\<forall>i < unat (enabled_crypto_devs g).
                    (\<forall>j < i. \<not> aead_accepted (enabled_caps plat g j) aead) \<longrightarrow>
                    aead_checks_agree (enabled_caps plat g i) aead"
    and prior: "\<forall>j < idx. \<not> aead_accepted (enabled_caps plat g j) aead"
  shows "get_crypto_aead_dev_loop plat g aead idx =
           Some (map_option (enabled_crypto_dev_ids g)
                   (find (\<lambda>i. aead_accepted (enabled_caps plat g i) aead)
                      [idx..<unat (enabled_crypto_devs g)]))"
  using prior
proof (induction "unat (enabled_crypto_devs g) - idx" arbitrary: idx)
  case 0
  then show ?case by (subst get_crypto_aead_dev_loop.simps) simp
next
  case (Suc k)
  then have lt: "idx < unat (enabled_crypto_devs g)" by simp
  from Suc(2) have k: "k = unat (enabled_crypto_devs g) - (idx + 1)" by simp
  from agree lt Suc(3) have "aead_checks_agree (enabled_caps plat g idx) aead" by simp
  note chk = aead_dev_check_agree[OF this, unfolded enabled_caps_def]
  show ?case
  proof (cases "aead_accepted (enabled_caps plat g idx) aead")
    case True
    with lt chk show ?thesis
      by (subst get_crypto_aead_dev_loop.simps) (simp add: upt_conv_Cons enabled_caps_def)
  next
    case False
    with Suc(3) have "\<forall>j < idx + 1. \<not> aead_accepted (enabled_caps plat g j) aead"
      by (auto simp: less_Suc_eq)
    from Suc(1)[OF k this] lt chk False show ?thesis
      by (subst get_crypto_aead_dev_loop.simps) (simp add: upt_conv_Cons enabled_caps_def)
  qed
qed

lemma example_enabled_caps:
  "enabled_caps example_platform example_global 0 = example_caps1"
  "enabled_caps example_platform example_global (Suc 0) = example_caps0"
  by (simp_all add: enabled_caps_def example_global_fields example_platform_def)

text \<open>
  C2 as stated does not hold: a request whose cipher and auth are both NULL is not
  accepted by every device. On the example system the first enabled device is device 1,
  which advertises no NULL authentication; the selector passes it over and returns
  device 0.
\<close>

theorem null_pair_passes_over_first_device:
  "get_crypto_dev example_platform example_global
     \<lparr>cipher_algo = RTE_CRYPTO_CIPHER_NULL, cipher_key_data = [], cipher_key_length = 0,
      cipher_iv_length = 0, cipher_op = RTE_CRYPTO_CIPHER_OP_ENCRYPT\<rparr>
     \<lparr>auth_algo = RTE_CRYPTO_AUTH_NULL, auth_digest_length = 0, auth_key_data = [],
      auth_key_length = 0, auth_iv_length = 0, auth_op = RTE_CRYPTO_AUTH_OP_GENERATE\<rparr> =
     Some (Some 0) \<and>
   enabled_crypto_devs example_global = 2 \<and>
   enabled_crypto_dev_ids example_global 0 = 1 \<and>
   enabled_crypto_dev_ids example_global 1 = 0"
  by (simp add: get_crypto_dev_def get_crypto_dev_loop.simps example_global_fields
      example_platform_def example_caps0_def example_caps1_def crypto_dev_check_def
      cipher_dev_check_def auth_dev_check_def check_auth_def is_valid_size_def
      is_valid_size_loop.simps MAX_IV_LENGTH_def)

text \<open>
  C2, amended. Let every size check that the scan makes return the answer of the rule of
  the data model (it does for every supported length, for every length on a range with
  \<open>max + increment \<le> 65535\<close> and for every length on a range of increment 1; what the
  wrap-around of the counter does otherwise is left open). Only the checks that the scan
  makes count: those on the devices up to the first that passes, of the key, IV and digest
  ranges of the entries it looks up, each made only when the checks before it passed. Then the selection for a cipher and auth pair returns the first device, in
  the order of the enabled list, that passes, and fails when none does. A device passes
  when the cipher is NULL or the first capability entry for the cipher algorithm supports
  the key and IV lengths (the IV at most 16 bytes), and the auth is NULL beside a cipher
  that is not NULL, or the first entry for the auth algorithm supports the key, digest
  and IV lengths (the IV at most 16 bytes); with both NULL the device must advertise the
  NULL authentication. The selection for an AEAD transform returns likewise the first
  device whose first entry for the algorithm supports the key, IV and digest lengths.
\<close>

theorem device_selection_first_match:
  "((\<forall>i < unat (enabled_crypto_devs g).
       (\<forall>j < i. \<not> dev_accepts (enabled_caps plat g j) cx ax) \<longrightarrow>
       dev_checks_agree (enabled_caps plat g i) cx ax) \<longrightarrow>
    get_crypto_dev plat g cx ax =
      Some (map_option (enabled_crypto_dev_ids g)
              (find (\<lambda>i. dev_accepts (enabled_caps plat g i) cx ax)
                 [0..<unat (enabled_crypto_devs g)]))) \<and>
   ((\<forall>i < unat (enabled_crypto_devs g).
       (\<forall>j < i. \<not> aead_accepted (enabled_caps plat g j) aead) \<longrightarrow>
       aead_checks_agree (enabled_caps plat g i) aead) \<longrightarrow>
    get_crypto_aead_dev plat g aead =
      Some (map_option (enabled_crypto_dev_ids g)
              (find (\<lambda>i. aead_accepted (enabled_caps plat g i) aead)
                 [0..<unat (enabled_crypto_devs g)])))"
proof (intro conjI impI)
  assume "\<forall>i < unat (enabled_crypto_devs g).
            (\<forall>j < i. \<not> dev_accepts (enabled_caps plat g j) cx ax) \<longrightarrow>
            dev_checks_agree (enabled_caps plat g i) cx ax"
  from get_crypto_dev_loop_first[OF this, of 0]
  show "get_crypto_dev plat g cx ax =
          Some (map_option (enabled_crypto_dev_ids g)
                  (find (\<lambda>i. dev_accepts (enabled_caps plat g i) cx ax)
                     [0..<unat (enabled_crypto_devs g)]))"
    by (simp add: get_crypto_dev_def)
next
  assume "\<forall>i < unat (enabled_crypto_devs g).
            (\<forall>j < i. \<not> aead_accepted (enabled_caps plat g j) aead) \<longrightarrow>
            aead_checks_agree (enabled_caps plat g i) aead"
  from get_crypto_aead_dev_loop_first[OF this, of 0]
  show "get_crypto_aead_dev plat g aead =
          Some (map_option (enabled_crypto_dev_ids g)
                  (find (\<lambda>i. aead_accepted (enabled_caps plat g i) aead)
                     [0..<unat (enabled_crypto_devs g)]))"
    by (simp add: get_crypto_aead_dev_def)
qed

theorem device_selection_first_match_witness:
  "enabled_crypto_devs example_global = 2 \<and>
   dev_checks_agree (enabled_caps example_platform example_global 0)
        (the (crypto_fill_cipher_xform example_create_env example_param))
        (the (crypto_fill_auth_xform example_platform example_create_env example_param)) \<and>
   \<not> dev_accepts (enabled_caps example_platform example_global 0)
        (the (crypto_fill_cipher_xform example_create_env example_param))
        (the (crypto_fill_auth_xform example_platform example_create_env example_param)) \<and>
   dev_checks_agree (enabled_caps example_platform example_global 1)
        (the (crypto_fill_cipher_xform example_create_env example_param))
        (the (crypto_fill_auth_xform example_platform example_create_env example_param)) \<and>
   dev_accepts (enabled_caps example_platform example_global 1)
        (the (crypto_fill_cipher_xform example_create_env example_param))
        (the (crypto_fill_auth_xform example_platform example_create_env example_param)) \<and>
   get_crypto_dev example_platform example_global
     (the (crypto_fill_cipher_xform example_create_env example_param))
     (the (crypto_fill_auth_xform example_platform example_create_env example_param)) =
     Some (Some (enabled_crypto_dev_ids example_global 1)) \<and>
   aead_checks_agree (enabled_caps example_gcm_platform example_global 0)
     \<lparr>aead_algo = RTE_CRYPTO_AEAD_AES_GCM, aead_key_data = replicate 16 0,
      aead_key_length = 16, aead_iv_length = 12, aead_aad_length = 8,
      aead_digest_length = 16, aead_op = RTE_CRYPTO_AEAD_OP_ENCRYPT\<rparr> \<and>
   aead_accepted (enabled_caps example_gcm_platform example_global 0)
     \<lparr>aead_algo = RTE_CRYPTO_AEAD_AES_GCM, aead_key_data = replicate 16 0,
      aead_key_length = 16, aead_iv_length = 12, aead_aad_length = 8,
      aead_digest_length = 16, aead_op = RTE_CRYPTO_AEAD_OP_ENCRYPT\<rparr> \<and>
   get_crypto_aead_dev example_gcm_platform example_global
     \<lparr>aead_algo = RTE_CRYPTO_AEAD_AES_GCM, aead_key_data = replicate 16 0,
      aead_key_length = 16, aead_iv_length = 12, aead_aad_length = 8,
      aead_digest_length = 16, aead_op = RTE_CRYPTO_AEAD_OP_ENCRYPT\<rparr> =
     Some (Some (enabled_crypto_dev_ids example_global 0))"
proof -
  let ?cx = "\<lparr>cipher_algo = RTE_CRYPTO_CIPHER_AES_CBC, cipher_key_data = replicate 16 0,
           cipher_key_length = 16, cipher_iv_length = 16,
           cipher_op = RTE_CRYPTO_CIPHER_OP_ENCRYPT\<rparr>"
  let ?ax = "\<lparr>auth_algo = RTE_CRYPTO_AUTH_SHA256_HMAC, auth_digest_length = 32,
           auth_key_data = replicate 32 0, auth_key_length = 32, auth_iv_length = 0,
           auth_op = RTE_CRYPTO_AUTH_OP_GENERATE\<rparr>"
  let ?gcm = "\<lparr>aead_algo = RTE_CRYPTO_AEAD_AES_GCM, aead_key_data = replicate 16 0,
      aead_key_length = 16, aead_iv_length = 12, aead_aad_length = 8,
      aead_digest_length = 16, aead_op = RTE_CRYPTO_AEAD_OP_ENCRYPT\<rparr>"
  have n: "unat (enabled_crypto_devs example_global) = 2"
    by (simp add: example_global_fields)
  have a0: "\<not> dev_accepts example_caps1 ?cx ?ax"
    by (simp add: dev_accepts_def auth_accepted_def example_caps1_def)
  have a1: "dev_accepts example_caps0 ?cx ?ax"
    by (simp add: dev_accepts_def auth_accepted_def cipher_accepted_def example_caps0_def
        size_supported_def MAX_IV_LENGTH_def)
  have s0: "dev_checks_agree example_caps1 ?cx ?ax"
    by (simp add: dev_checks_agree_def cipher_checks_agree_def auth_checks_agree_def
        example_caps1_def size_check_agrees_supported size_supported_def)
  have s1: "dev_checks_agree example_caps0 ?cx ?ax"
    by (simp add: dev_checks_agree_def cipher_checks_agree_def auth_checks_agree_def
        example_caps0_def size_check_agrees_supported size_supported_def)
  have pair: "\<forall>i < unat (enabled_crypto_devs example_global).
       (\<forall>j < i. \<not> dev_accepts (enabled_caps example_platform example_global j) ?cx ?ax) \<longrightarrow>
       dev_checks_agree (enabled_caps example_platform example_global i) ?cx ?ax"
  proof (intro allI impI)
    fix i
    assume "i < unat (enabled_crypto_devs example_global)"
    then have "i = 0 \<or> i = Suc 0" using n by auto
    then show "dev_checks_agree (enabled_caps example_platform example_global i) ?cx ?ax"
      by (auto simp: example_enabled_caps s0 s1)
  qed
  have gc: "enabled_caps example_gcm_platform example_global 0 = example_gcm_caps1"
    by (simp add: enabled_caps_def example_global_fields example_gcm_platform_def)
  have g0: "aead_accepted example_gcm_caps1 ?gcm"
    by (simp add: aead_accepted_def example_gcm_caps1_def size_supported_def
        MAX_IV_LENGTH_def)
  have t0: "aead_checks_agree example_gcm_caps1 ?gcm"
    by (simp add: aead_checks_agree_def example_gcm_caps1_def size_check_agrees_supported
        size_supported_def)
  have aead: "\<forall>i < unat (enabled_crypto_devs example_global).
       (\<forall>j < i. \<not> aead_accepted (enabled_caps example_gcm_platform example_global j) ?gcm) \<longrightarrow>
       aead_checks_agree (enabled_caps example_gcm_platform example_global i) ?gcm"
  proof (intro allI impI)
    fix i
    assume "i < unat (enabled_crypto_devs example_global)"
      and none: "\<forall>j < i. \<not> aead_accepted (enabled_caps example_gcm_platform example_global j)
                            ?gcm"
    have "i = 0"
    proof (rule ccontr)
      assume "i \<noteq> 0"
      with none have "\<not> aead_accepted (enabled_caps example_gcm_platform example_global 0)
                          ?gcm" by simp
      with g0 gc show False by simp
    qed
    then show "aead_checks_agree (enabled_caps example_gcm_platform example_global i) ?gcm"
      by (simp add: gc t0)
  qed
  have l: "[0..<unat (enabled_crypto_devs example_global)] = [0, Suc 0]"
    by (simp add: n upt_conv_Cons)
  from device_selection_first_match[of example_global example_platform ?cx ?ax ?gcm]
       device_selection_first_match[of example_global example_gcm_platform ?cx ?ax ?gcm]
       pair aead
  have "get_crypto_dev example_platform example_global ?cx ?ax =
          Some (Some (enabled_crypto_dev_ids example_global 1))"
    and "get_crypto_aead_dev example_gcm_platform example_global ?gcm =
          Some (Some (enabled_crypto_dev_ids example_global 0))"
    unfolding l by (simp_all add: example_enabled_caps gc a0 a1 g0)
  then show ?thesis
    by (simp add: example_fill example_enabled_caps gc a0 a1 s0 s1 g0 t0
        example_global_fields)
qed

section \<open>Claims on the operation engine\<close>
















end
